theory Spec2Isabelle
  imports Complex_Main
begin

section \<open>Numbers and landmarks\<close>

text \<open>
  The analyzers compute with Python floats. They are modelled as the reals: every
  property below is about the comparisons, counters and state updates of the
  classifiers, not about rounding. Python's unbounded integers are \<open>int\<close>.

  MediaPipe hands back, for one frame, either no pose or a landmark list that is
  indexed by the members of its \<open>PoseLandmark\<close> enumeration; only the members the
  analyzers read are listed. A landmark always carries coordinates and a
  visibility, also when the visibility is low.
\<close>

datatype pose_landmark =
    NOSE | LEFT_INDEX | RIGHT_INDEX
  | LEFT_SHOULDER
  | LEFT_HIP | RIGHT_HIP
  | LEFT_KNEE | RIGHT_KNEE
  | LEFT_ANKLE | RIGHT_ANKLE

record landmark =
  lm_x :: real
  lm_y :: real
  lm_visibility :: real

type_synonym landmarks = "pose_landmark \<Rightarrow> landmark"

section \<open>The sliding window: \<open>deque(maxlen=5)\<close>\<close>

text \<open>
  \<open>collections.deque(maxlen=n).append(v)\<close> appends on the right and, when the deque
  is already full, discards the leftmost element first. The window's mean is the
  expression \<open>sum(h) / len(h)\<close> that the analyzers evaluate right after the append.
\<close>

definition deque_append :: "nat \<Rightarrow> real list \<Rightarrow> real \<Rightarrow> real list" where
  "deque_append maxlen h v =
     (if maxlen = 0 then []
      else if length h \<ge> maxlen then drop (Suc (length h - maxlen)) h @ [v]
      else h @ [v])"

definition window_mean :: "real list \<Rightarrow> real" where
  "window_mean h = sum_list h / real (length h)"

text \<open>The angle windows of the squat analyzers have capacity 5.\<close>

definition push :: "real list \<Rightarrow> real \<Rightarrow> real list" where
  "push h v = deque_append 5 h v"

text \<open>Pushing a whole sequence of values, one after the other, into an empty window.\<close>

definition push_all :: "real list \<Rightarrow> real list" where
  "push_all vs = foldl push [] vs"

section \<open>Geometry of the squat analyzers\<close>

text \<open>
  \<open>np.arctan2(y, x)\<close> is the argument of the complex number \<open>x + iy\<close>, and 0 at the
  origin. \<open>_calculate_angle(a, b, c)\<close> is the angle at the middle point \<open>b\<close>, in
  degrees, folded into the range from 0 to 180.
\<close>

definition arctan2 :: "real \<Rightarrow> real \<Rightarrow> real" where
  "arctan2 y x = Arg (Complex x y)"

definition calculate_angle :: "landmark \<Rightarrow> landmark \<Rightarrow> landmark \<Rightarrow> real" where
  "calculate_angle a b c =
     (let radians = arctan2 (lm_y c - lm_y b) (lm_x c - lm_x b)
                    - arctan2 (lm_y a - lm_y b) (lm_x a - lm_x b);
          angle = \<bar>radians * 180 / pi\<bar>
      in if angle > 180 then 360 - angle else angle)"

definition get_landmark :: "landmarks \<Rightarrow> pose_landmark \<Rightarrow> landmark" where
  "get_landmark lms name = lms name"

section \<open>The mobile squat analyzer: \<open>SquatAnalyzerMobile\<close>\<close>

datatype stage = S1 | S2 | S3

record squat_analyzer_mobile =
  correct_counter :: int
  incorrect_counter :: int
  stage :: "stage option"
  sequence :: "stage list"
  feedback :: "string option"
  knee_history :: "real list"
  back_history :: "real list"
  depth_hold :: int
  min_knee_angle :: real

definition STAGE_S1_THRESHOLD :: real where "STAGE_S1_THRESHOLD = 160"
definition STAGE_S2_THRESHOLD :: real where "STAGE_S2_THRESHOLD = 95"
definition VISIBILITY_THRESHOLD :: real where "VISIBILITY_THRESHOLD = 8 / 10"
definition DEPTH_HOLD_REQUIREMENT :: int where "DEPTH_HOLD_REQUIREMENT = 3"

definition not_visible_message :: string where
  "not_visible_message = ''Please make your full body visible''"

text \<open>The state that \<open>__init__\<close> builds.\<close>

definition squat_mobile_init :: squat_analyzer_mobile where
  "squat_mobile_init =
     \<lparr> correct_counter = 0, incorrect_counter = 0, stage = None, sequence = [],
       feedback = None, knee_history = [], back_history = [], depth_hold = 0,
       min_knee_angle = 180 \<rparr>"

text \<open>\<open>all(lm[2] > self.VISIBILITY_THRESHOLD for lm in [shoulder, hip, knee, ankle])\<close>\<close>

definition all_visible :: "landmark \<Rightarrow> landmark \<Rightarrow> landmark \<Rightarrow> landmark \<Rightarrow> bool" where
  "all_visible shoulder hip knee ankle =
     list_all (\<lambda>lm. lm_visibility lm > VISIBILITY_THRESHOLD) [shoulder, hip, knee, ankle]"

text \<open>
  The stage chain. Its three tests cover every real number; the last \<open>elif\<close> has
  no \<open>else\<close>, so the model keeps the previous stage there.
\<close>

definition classify_stage :: "real \<Rightarrow> stage option \<Rightarrow> stage option" where
  "classify_stage knee_angle prev_stage =
     (if knee_angle > STAGE_S1_THRESHOLD then Some S1
      else if STAGE_S1_THRESHOLD \<ge> knee_angle \<and> knee_angle > STAGE_S2_THRESHOLD then Some S2
      else if knee_angle \<le> STAGE_S2_THRESHOLD then Some S3
      else prev_stage)"

text \<open>
  The first half of the visible branch, the same text in both squat classes: push
  the two raw angles, smooth them, track the minimum, classify the stage, record a
  stage change and count the frames at depth. It returns the smoothed knee and
  back angles with the updated analyzer.
\<close>

definition track_frame ::
  "'a squat_analyzer_mobile_scheme \<Rightarrow> landmark \<Rightarrow> landmark \<Rightarrow> landmark \<Rightarrow> landmark
     \<Rightarrow> real \<times> real \<times> 'a squat_analyzer_mobile_scheme" where
  "track_frame s shoulder hip knee ankle =
     (let kh = push (knee_history s) (calculate_angle hip knee ankle);
          bh = push (back_history s) (calculate_angle shoulder hip knee);
          knee_angle = window_mean kh;
          back_angle = window_mean bh;
          prev_stage = stage s;
          new_stage = classify_stage knee_angle prev_stage;
          seq = (if new_stage \<noteq> None \<and> prev_stage \<noteq> new_stage
                 then sequence s @ [the new_stage] else sequence s);
          dh = (if new_stage = Some S3 then depth_hold s + 1 else depth_hold s)
      in (knee_angle, back_angle,
          s\<lparr> knee_history := kh, back_history := bh,
             min_knee_angle := min (min_knee_angle s) knee_angle,
             stage := new_stage, sequence := seq, depth_hold := dh \<rparr>))"

text \<open>\<open>seq[-3:]\<close>\<close>

definition last_three :: "'a list \<Rightarrow> 'a list" where
  "last_three xs = drop (length xs - 3) xs"

text \<open>The state update shared by the branches that count a correct squat.\<close>

definition count_correct ::
  "'a squat_analyzer_mobile_scheme \<Rightarrow> 'a squat_analyzer_mobile_scheme" where
  "count_correct s =
     s\<lparr> correct_counter := correct_counter s + 1, sequence := [],
        min_knee_angle := 180, depth_hold := 0 \<rparr>"

text \<open>
  Rep resolution of \<open>SquatAnalyzerMobile.process_frame\<close>: the local \<open>feedback\<close> it
  leaves, and the analyzer.
\<close>

definition resolve_rep_mobile ::
  "real \<Rightarrow> 'a squat_analyzer_mobile_scheme \<Rightarrow> string option \<times> 'a squat_analyzer_mobile_scheme" where
  "resolve_rep_mobile knee_angle s =
     (if length (sequence s) \<ge> 3 \<and> last_three (sequence s) = [S1, S2, S3] \<and> depth_hold s \<ge> 3
      then (if knee_angle > 100 then (Some ''Correct Squat'', count_correct s) else (None, s))
      else if length (sequence s) \<ge> 3 \<and> last_three (sequence s) = [S2, S3, S2]
              \<and> depth_hold s \<ge> 3
      then (Some ''Correct Squat'', count_correct s)
      else if length (sequence s) \<ge> 3 \<and> last (sequence s) = S1
      then (if sequence s \<noteq> [S1] \<and> S3 \<notin> set (sequence s)
            then (Some ''Incomplete Squat - Go deeper'',
                  s\<lparr> incorrect_counter := incorrect_counter s + 1, sequence := [],
                     depth_hold := 0 \<rparr>)
            else if sequence s \<noteq> [S1] \<and> depth_hold s < 3
            then (Some ''Hold at bottom longer'',
                  s\<lparr> incorrect_counter := incorrect_counter s + 1, sequence := [],
                     depth_hold := 0 \<rparr>)
            else (None, s\<lparr> sequence := [], depth_hold := 0 \<rparr>))
      else (None, s))"

text \<open>The form feedback, written over the feedback of the rep resolution.\<close>

definition form_feedback ::
  "real \<Rightarrow> real \<Rightarrow> stage option \<Rightarrow> real \<Rightarrow> landmark \<Rightarrow> landmark \<Rightarrow> string option
     \<Rightarrow> string option" where
  "form_feedback knee_angle back_angle stg min_knee ankle knee fb =
     (let fb1 = (if back_angle < 25 then Some ''Bend forward''
                 else if back_angle > 50 then Some ''Bend backwards''
                 else if stg = Some S2 \<and> knee_angle > 80 then Some ''Lower your hips''
                 else if stg = Some S3 \<and> knee_angle < 50 then Some ''Squat too deep''
                 else if stg = Some S3 \<and> min_knee > 60 then Some ''Raise deeper''
                 else fb)
      in if lm_x ankle > lm_x knee then Some ''Knees over toes'' else fb1)"

text \<open>
  \<open>process_frame\<close>, on what the pose estimator found in the frame. The annotated
  image it returns is a drawing of the state and is left out.
\<close>

definition process_frame :: "squat_analyzer_mobile \<Rightarrow> landmarks option \<Rightarrow> squat_analyzer_mobile" where
  "process_frame s pose_landmarks =
     (case pose_landmarks of
        None \<Rightarrow> s\<lparr> feedback := Some not_visible_message \<rparr>
      | Some lms \<Rightarrow>
          (let shoulder = get_landmark lms LEFT_SHOULDER;
               hip = get_landmark lms LEFT_HIP;
               knee = get_landmark lms LEFT_KNEE;
               ankle = get_landmark lms LEFT_ANKLE
           in if all_visible shoulder hip knee ankle
              then (let (knee_angle, back_angle, s1) = track_frame s shoulder hip knee ankle;
                        (fb, s2) = resolve_rep_mobile knee_angle s1
                    in s2\<lparr> feedback :=
                             form_feedback knee_angle back_angle (stage s2)
                               (min_knee_angle s2) ankle knee fb \<rparr>)
              else s\<lparr> feedback := Some not_visible_message \<rparr>))"

text \<open>\<open>reset\<close>\<close>

definition squat_reset :: "squat_analyzer_mobile \<Rightarrow> squat_analyzer_mobile" where
  "squat_reset s =
     s\<lparr> correct_counter := 0, incorrect_counter := 0, sequence := [], stage := None,
        depth_hold := 0, min_knee_angle := 180, feedback := None,
        knee_history := [], back_history := [] \<rparr>"

section \<open>The camera squat analyzer: \<open>SquatAnalyzer\<close>\<close>

text \<open>
  The camera class has the fields of the mobile one and the speech fields.
  \<open>speech_queue\<close> is modelled by the list of the texts put into it, oldest first:
  the worker thread only takes items out at the front, so what \<open>_speak\<close> enqueues
  is what it appends here.
\<close>

record squat_analyzer = squat_analyzer_mobile +
  last_feedback :: "string option"
  speech_queue :: "string list"

definition squat_init :: squat_analyzer where
  "squat_init =
     \<lparr> correct_counter = 0, incorrect_counter = 0, stage = None, sequence = [],
       feedback = None, knee_history = [], back_history = [], depth_hold = 0,
       min_knee_angle = 180, last_feedback = None, speech_queue = [] \<rparr>"

text \<open>
  Python's truth value of the argument of \<open>_speak\<close>: \<open>None\<close> and the empty string
  are false.
\<close>

definition truthy :: "string option \<Rightarrow> bool" where
  "truthy text = (case text of None \<Rightarrow> False | Some t \<Rightarrow> t \<noteq> [])"

definition speak :: "squat_analyzer \<Rightarrow> string option \<Rightarrow> squat_analyzer" where
  "speak s text =
     (if truthy text \<and> text \<noteq> last_feedback s
      then s\<lparr> last_feedback := text, speech_queue := speech_queue s @ [the text] \<rparr>
      else s)"

text \<open>Rep resolution of \<open>SquatAnalyzer.read_frame\<close>.\<close>

definition resolve_rep_camera ::
  "'a squat_analyzer_mobile_scheme \<Rightarrow> string option \<times> 'a squat_analyzer_mobile_scheme" where
  "resolve_rep_camera s =
     (if length (sequence s) \<ge> 3 \<and> last_three (sequence s) = [S2, S3, S2]
         \<and> depth_hold s \<ge> DEPTH_HOLD_REQUIREMENT
      then (Some ''Correct Squat'', count_correct s)
      else if length (sequence s) \<ge> 4 \<and> S3 \<in> set (sequence s) \<and> last (sequence s) = S1
              \<and> depth_hold s \<ge> DEPTH_HOLD_REQUIREMENT
      then (Some ''Correct Squat'', count_correct s)
      else if length (sequence s) \<ge> 3 \<and> last (sequence s) = S1
      then (if sequence s \<noteq> [S1] \<and> S3 \<notin> set (sequence s)
            then (Some ''Incomplete - Go deeper'',
                  s\<lparr> incorrect_counter := incorrect_counter s + 1, sequence := [],
                     depth_hold := 0 \<rparr>)
            else if sequence s \<noteq> [S1] \<and> depth_hold s < DEPTH_HOLD_REQUIREMENT
            then (Some ''Hold at bottom longer'',
                  s\<lparr> incorrect_counter := incorrect_counter s + 1, sequence := [],
                     depth_hold := 0 \<rparr>)
            else (None, s\<lparr> sequence := [], depth_hold := 0 \<rparr>))
      else (None, s))"

text \<open>
  \<open>read_frame\<close>, on the flag \<open>ret\<close> of the camera read and on what the pose
  estimator found. When the read fails the method returns at once.
\<close>

definition read_frame :: "squat_analyzer \<Rightarrow> bool \<Rightarrow> landmarks option \<Rightarrow> squat_analyzer" where
  "read_frame s ret pose_landmarks =
     (if \<not> ret then s
      else case pose_landmarks of
        None \<Rightarrow> speak (s\<lparr> feedback := Some not_visible_message \<rparr>) (Some not_visible_message)
      | Some lms \<Rightarrow>
          (let shoulder = get_landmark lms LEFT_SHOULDER;
               hip = get_landmark lms LEFT_HIP;
               knee = get_landmark lms LEFT_KNEE;
               ankle = get_landmark lms LEFT_ANKLE
           in if all_visible shoulder hip knee ankle
              then (let (knee_angle, back_angle, s1) = track_frame s shoulder hip knee ankle;
                        (fb, s2) = resolve_rep_camera s1;
                        fb' = form_feedback knee_angle back_angle (stage s2)
                                (min_knee_angle s2) ankle knee fb
                    in speak (s2\<lparr> feedback := fb' \<rparr>) fb')
              else speak (s\<lparr> feedback := Some not_visible_message \<rparr>)
                     (Some not_visible_message)))"

section \<open>The camera jump analyzer: \<open>JumpAnalyzer\<close>\<close>

text \<open>
  The module constants are read from the environment when the module is loaded, so
  they are a parameter of the model; \<open>default_config\<close> holds the defaults.
\<close>

record jump_config =
  CALIBRATION_INCHES :: real
  CALIBRATION_PIXELS :: real
  MIN_JUMP_INCHES :: real
  SMOOTHING_WINDOW :: int
  MIN_AIRBORNE_FRAMES :: int
  VEL_UP_PCT_OF_H :: real
  VEL_DOWN_PCT_OF_H :: real

definition default_config :: jump_config where
  "default_config =
     \<lparr> CALIBRATION_INCHES = 12, CALIBRATION_PIXELS = 100, MIN_JUMP_INCHES = 2,
       SMOOTHING_WINDOW = 5, MIN_AIRBORNE_FRAMES = 6,
       VEL_UP_PCT_OF_H = 25 / 100, VEL_DOWN_PCT_OF_H = 25 / 100 \<rparr>"

record jump_result =
  inches :: real
  valid :: bool
  reason :: string

text \<open>The four values that the field \<open>state\<close> takes: the strings "idle", "armed", "airborne", "landed".\<close>

datatype jump_state = idle | armed | airborne | landed

record jump_analyzer =
  state :: jump_state
  baseline_nose_y :: "real option"
  peak_delta_pixels :: real
  last_land_time :: real
  last_jump_result :: "jump_result option"
  prev_dy :: "real option"
  airborne_frames :: int
  prev_time :: real
  fps :: real
  dy_debug :: real
  vel_debug :: real
  nose_history :: "real list"
  steady_frames :: int
  min_airborne_frames :: int

definition inches_per_pixel :: "jump_config \<Rightarrow> real" where
  "inches_per_pixel cfg =
     (if CALIBRATION_PIXELS cfg > 0 then CALIBRATION_INCHES cfg / CALIBRATION_PIXELS cfg
      else 12 / 100)"

text \<open>\<open>math.hypot\<close> of the coordinate differences.\<close>

definition distance :: "real \<times> real \<Rightarrow> real \<times> real \<Rightarrow> real" where
  "distance p1 p2 = sqrt ((fst p1 - fst p2)\<^sup>2 + (snd p1 - snd p2)\<^sup>2)"

definition landmark_xy :: "landmarks \<Rightarrow> pose_landmark \<Rightarrow> int \<Rightarrow> int \<Rightarrow> (real \<times> real) option" where
  "landmark_xy lms idx w h =
     (let l = lms idx
      in if lm_visibility l < 4 / 10 then None
         else Some (lm_x l * real_of_int w, lm_y l * real_of_int h))"

text \<open>A pair of coordinates is always true in Python, so \<open>not p\<close> holds for \<open>None\<close> only.\<close>

definition is_hand_to_nose ::
  "landmarks \<Rightarrow> int \<Rightarrow> int \<Rightarrow> pose_landmark \<Rightarrow> pose_landmark \<Rightarrow> real \<Rightarrow> bool" where
  "is_hand_to_nose lms w h hand_idx nose_idx thresh =
     (case landmark_xy lms hand_idx w h of
        None \<Rightarrow> False
      | Some p_hand \<Rightarrow>
          (case landmark_xy lms nose_idx w h of
             None \<Rightarrow> False
           | Some p_nose \<Rightarrow> distance p_hand p_nose < thresh))"

text \<open>
  The local function \<open>angle\<close> of \<open>detect_squat_cheat\<close>: the angle at \<open>b\<close> from the
  cosine, with \<open>1e-6\<close> added to the product of the norms, clamped, in degrees.
\<close>

definition angle :: "real \<times> real \<Rightarrow> real \<times> real \<Rightarrow> real \<times> real \<Rightarrow> real" where
  "angle a b c =
     (let ba = (fst a - fst b, snd a - snd b);
          bc = (fst c - fst b, snd c - snd b);
          cosang = (fst ba * fst bc + snd ba * snd bc)
                   / (sqrt ((fst ba)\<^sup>2 + (snd ba)\<^sup>2) * sqrt ((fst bc)\<^sup>2 + (snd bc)\<^sup>2)
                      + 1 / 1000000)
      in arccos (max (min cosang 1) (- 1)) * 180 / pi)"

definition cheat_landmarks :: "pose_landmark list" where
  "cheat_landmarks = [LEFT_HIP, RIGHT_HIP, LEFT_KNEE, RIGHT_KNEE, LEFT_ANKLE, RIGHT_ANKLE]"

definition detect_squat_cheat :: "landmarks \<Rightarrow> int \<Rightarrow> int \<Rightarrow> bool" where
  "detect_squat_cheat lms w h =
     (if list_ex (\<lambda>name. landmark_xy lms name w h = None) cheat_landmarks then False
      else
        (let pts = (\<lambda>name. the (landmark_xy lms name w h));
             hip_y = (snd (pts LEFT_HIP) + snd (pts RIGHT_HIP)) / 2;
             knee_y = (snd (pts LEFT_KNEE) + snd (pts RIGHT_KNEE)) / 2;
             knee_angle_left = angle (pts LEFT_HIP) (pts LEFT_KNEE) (pts LEFT_ANKLE);
             knee_angle_right = angle (pts RIGHT_HIP) (pts RIGHT_KNEE) (pts RIGHT_ANKLE);
             knee_angle = (knee_angle_left + knee_angle_right) / 2;
             is_knee_bent = knee_angle < 150;
             is_hip_low = hip_y > knee_y - 20;
             is_ankle_under =
               \<bar>(fst (pts LEFT_ANKLE) + fst (pts RIGHT_ANKLE)) / 2
                 - (fst (pts LEFT_HIP) + fst (pts RIGHT_HIP)) / 2\<bar> < 60
         in is_knee_bent \<and> (is_hip_low \<or> is_ankle_under)))"

text \<open>\<open>_init_state\<close>, at the time \<open>t\<close> that \<open>time.time()\<close> returns.\<close>

definition jump_init :: "jump_config \<Rightarrow> real \<Rightarrow> jump_analyzer" where
  "jump_init cfg t =
     \<lparr> state = idle, baseline_nose_y = None, peak_delta_pixels = 0, last_land_time = 0,
       last_jump_result = None, prev_dy = None, airborne_frames = 0, prev_time = t,
       fps = 0, dy_debug = 0, vel_debug = 0, nose_history = [], steady_frames = 0,
       min_airborne_frames = MIN_AIRBORNE_FRAMES cfg \<rparr>"

definition reset_state :: "jump_analyzer \<Rightarrow> jump_analyzer" where
  "reset_state s =
     s\<lparr> state := idle, baseline_nose_y := None, peak_delta_pixels := 0, prev_dy := None,
        airborne_frames := 0, nose_history := [], steady_frames := 0 \<rparr>"

definition finalize_jump ::
  "jump_config \<Rightarrow> jump_analyzer \<Rightarrow> landmarks \<Rightarrow> int \<Rightarrow> int \<Rightarrow> jump_analyzer" where
  "finalize_jump cfg s lms width height =
     (let inches = max 0 (peak_delta_pixels s) * inches_per_pixel cfg
      in if inches < MIN_JUMP_INCHES cfg
         then s\<lparr> last_jump_result :=
                   Some \<lparr> inches = inches, valid = False, reason = ''too-small'' \<rparr> \<rparr>
         else (let cheated = detect_squat_cheat lms width height
               in if cheated
                  then s\<lparr> last_jump_result :=
                            Some \<lparr> inches = inches, valid = False, reason = ''cheat'' \<rparr> \<rparr>
                  else s\<lparr> last_jump_result :=
                            Some \<lparr> inches = inches, valid = True, reason = ''ok'' \<rparr> \<rparr>))"

text \<open>
  What one call of \<open>read_frame\<close> gets from outside: whether the camera is open,
  the flag \<open>ret\<close> of the read, the clock, the frame's height and width, and the
  pose estimator's answer.
\<close>

record jump_capture =
  cap_opened :: bool
  ret :: bool
  now :: real
  frame_h :: int
  frame_w :: int
  pose_landmarks :: "landmarks option"

text \<open>The ARM gesture block.\<close>

definition arm_gesture :: "jump_analyzer \<Rightarrow> landmarks \<Rightarrow> int \<Rightarrow> int \<Rightarrow> jump_analyzer" where
  "arm_gesture s lms w h =
     (if state s = idle \<and> is_hand_to_nose lms w h RIGHT_INDEX NOSE 60
      then (let s1 = s\<lparr> state := armed \<rparr>;
                s2 = (case landmark_xy lms NOSE w h of
                        None \<Rightarrow> s1
                      | Some p_nose \<Rightarrow>
                          s1\<lparr> baseline_nose_y := Some (snd p_nose), peak_delta_pixels := 0 \<rparr>)
            in s2\<lparr> steady_frames := 0 \<rparr>)
      else s)"

text \<open>The RESET gesture block.\<close>

definition reset_gesture :: "jump_analyzer \<Rightarrow> landmarks \<Rightarrow> int \<Rightarrow> int \<Rightarrow> jump_analyzer" where
  "reset_gesture s lms w h =
     (if (state s = armed \<or> state s = landed) \<and> is_hand_to_nose lms w h LEFT_INDEX NOSE 60
      then (reset_state s)\<lparr> last_jump_result := None \<rparr>
      else s)"

text \<open>
  The jump detection block, entered when the nose is visible and a baseline is
  set, in two parts. First the measurements: the nose height goes into the
  window, and the block computes the smoothed height, the steady frames, the
  displacement \<open>dy\<close> (positive is up), its velocity and the peak. It returns
  \<open>dy\<close> and \<open>vel_dy\<close> with the updated analyzer.
\<close>

definition measure_nose ::
  "jump_config \<Rightarrow> jump_analyzer \<Rightarrow> real \<Rightarrow> real \<Rightarrow> real \<Rightarrow> real \<times> real \<times> jump_analyzer" where
  "measure_nose cfg s nose_y baseline dt_local =
     (let nh0 = nose_history s @ [nose_y];
          nh = (if int (length nh0) > max 5 (SMOOTHING_WINDOW cfg) then tl nh0 else nh0);
          smooth_nose_y = sum_list nh / real (length nh);
          steady = (if \<bar>smooth_nose_y - baseline\<bar> < 4 then steady_frames s + 1 else 0);
          dy = baseline - smooth_nose_y;
          vel_dy = (case prev_dy s of
                      None \<Rightarrow> 0
                    | Some pd \<Rightarrow> if dt_local > 0 then (dy - pd) / dt_local else 0)
      in (dy, vel_dy,
          s\<lparr> nose_history := nh, steady_frames := steady, dy_debug := dy,
             vel_debug := vel_dy, prev_dy := Some dy,
             peak_delta_pixels := max (peak_delta_pixels s) dy \<rparr>))"

text \<open>Then the thresholds and the takeoff and landing tests.\<close>

definition phase_step ::
  "jump_config \<Rightarrow> jump_analyzer \<Rightarrow> real \<Rightarrow> real \<Rightarrow> landmarks \<Rightarrow> int \<Rightarrow> int \<Rightarrow> real
     \<Rightarrow> jump_analyzer" where
  "phase_step cfg s1 dy vel_dy lms w h t =
     (let arm_thresh = max 8 (15 / 1000 * real_of_int h);
          land_thresh = max 5 (1 / 100 * real_of_int h);
          up_vel_thresh = VEL_UP_PCT_OF_H cfg * real_of_int h;
          down_vel_thresh = VEL_DOWN_PCT_OF_H cfg * real_of_int h;
          ready_to_jump = (steady_frames s1 \<ge> 5)
      in if state s1 = armed \<and> ready_to_jump \<and> dy > arm_thresh \<and> vel_dy > up_vel_thresh
         then s1\<lparr> state := airborne, airborne_frames := 0 \<rparr>
         else if state s1 = airborne
         then (let s2 = s1\<lparr> airborne_frames := airborne_frames s1 + 1 \<rparr>
               in if dy < land_thresh \<and> vel_dy < - down_vel_thresh
                     \<and> airborne_frames s2 \<ge> min_airborne_frames s2
                  then (finalize_jump cfg (s2\<lparr> state := landed, last_land_time := t \<rparr>)
                          lms w h)\<lparr> steady_frames := 0 \<rparr>
                  else s2)
         else s1)"

definition detect_jump ::
  "jump_config \<Rightarrow> jump_analyzer \<Rightarrow> landmarks \<Rightarrow> int \<Rightarrow> int \<Rightarrow> real \<Rightarrow> real \<Rightarrow> jump_analyzer" where
  "detect_jump cfg s lms w h dt_local t =
     (case landmark_xy lms NOSE w h of
        None \<Rightarrow> s
      | Some p_nose \<Rightarrow>
     (case baseline_nose_y s of
        None \<Rightarrow> s
      | Some baseline \<Rightarrow>
          (let (dy, vel_dy, s1) = measure_nose cfg s (snd p_nose) baseline dt_local
           in phase_step cfg s1 dy vel_dy lms w h t)))"

text \<open>
  \<open>JumpAnalyzer.read_frame\<close>. When the camera is closed or the read fails the
  method returns at once. The drawing on the frame is left out.
\<close>

definition jump_read_frame :: "jump_config \<Rightarrow> jump_analyzer \<Rightarrow> jump_capture \<Rightarrow> jump_analyzer" where
  "jump_read_frame cfg s c =
     (if \<not> cap_opened c then s
      else if \<not> ret c then s
      else
        (let h = frame_h c; w = frame_w c;
             dt_local = (if prev_time s \<noteq> 0 then now c - prev_time s else 0);
             s1 = (case pose_landmarks c of
                     None \<Rightarrow> s
                   | Some lms \<Rightarrow>
                       detect_jump cfg (reset_gesture (arm_gesture s lms w h) lms w h)
                         lms w h dt_local (now c));
             s2 = (if dt_local > 0
                   then s1\<lparr> fps := 9 / 10 * fps s1 + 1 / 10 * (1 / dt_local) \<rparr>
                   else s1)
         in s2\<lparr> prev_time := now c \<rparr>))"

section \<open>The mobile jump analyzer: \<open>JumpAnalyzerMobile\<close>\<close>

text \<open>
  Its field \<open>feedback\<close> is named \<open>jump_feedback\<close> here, the squat record having
  taken the name.
\<close>

record jump_analyzer_mobile =
  baseline_y :: "real option"
  max_jump_height :: real
  jump_count :: int
  is_jumping :: bool
  current_jump_height :: real
  jump_feedback :: "string option"
  y_history :: "real list"

definition jump_mobile_init :: jump_analyzer_mobile where
  "jump_mobile_init =
     \<lparr> baseline_y = None, max_jump_height = 0, jump_count = 0, is_jumping = False,
       current_jump_height = 0, jump_feedback = None, y_history = [] \<rparr>"

text \<open>\<open>int(x)\<close> truncates towards zero; \<open>str\<close> of an integer is its decimal numeral.\<close>

definition py_int :: "real \<Rightarrow> int" where
  "py_int x = (if x \<ge> 0 then \<lfloor>x\<rfloor> else \<lceil>x\<rceil>)"

fun str_nat :: "nat \<Rightarrow> string" where
  "str_nat n =
     (if n < 10 then [char_of (48 + n)] else str_nat (n div 10) @ [char_of (48 + n mod 10)])"

definition str_int :: "int \<Rightarrow> string" where
  "str_int i = (if i < 0 then CHR ''-'' # str_nat (nat (- i)) else str_nat (nat i))"

text \<open>\<open>process_frame\<close>, on the pose estimator's answer and the frame's height.\<close>

definition jump_process_frame ::
  "jump_analyzer_mobile \<Rightarrow> landmarks option \<Rightarrow> int \<Rightarrow> jump_analyzer_mobile" where
  "jump_process_frame s pose frame_height =
     (case pose of
        None \<Rightarrow> s\<lparr> jump_feedback := Some not_visible_message \<rparr>
      | Some lms \<Rightarrow>
          (let left_ankle = lms LEFT_ANKLE; right_ankle = lms RIGHT_ANKLE
           in if lm_visibility left_ankle > 7 / 10 \<and> lm_visibility right_ankle > 7 / 10
              then
                (let avg_ankle_y = (lm_y left_ankle + lm_y right_ankle) / 2;
                     yh = push (y_history s) avg_ankle_y;
                     smooth_y = window_mean yh;
                     baseline = (case baseline_y s of None \<Rightarrow> smooth_y | Some b \<Rightarrow> b);
                     s1 = s\<lparr> y_history := yh, baseline_y := Some baseline \<rparr>;
                     jump_pixels = (baseline - smooth_y) * real_of_int frame_height
                 in if jump_pixels > 30
                    then
                      (let s2 = (if \<not> is_jumping s1
                                 then s1\<lparr> is_jumping := True, jump_count := jump_count s1 + 1 \<rparr>
                                 else s1);
                           cur = max (current_jump_height s2) jump_pixels
                       in s2\<lparr> current_jump_height := cur,
                              max_jump_height := max (max_jump_height s2) jump_pixels,
                              jump_feedback :=
                                Some (''Jump Height: '' @ str_int (py_int cur) @ '' px'') \<rparr>)
                    else
                      (let s2 = (if is_jumping s1
                                 then s1\<lparr> is_jumping := False, current_jump_height := 0 \<rparr>
                                 else s1)
                       in s2\<lparr> jump_feedback := Some ''Ready to jump'',
                              baseline_y := Some (smooth_y * (1 / 10) + baseline * (9 / 10)) \<rparr>))
              else s\<lparr> jump_feedback := Some not_visible_message \<rparr>))"

definition jump_reset :: "jump_analyzer_mobile \<Rightarrow> jump_analyzer_mobile" where
  "jump_reset s =
     s\<lparr> jump_count := 0, max_jump_height := 0, baseline_y := None, is_jumping := False,
        current_jump_height := 0, jump_feedback := None, y_history := [] \<rparr>"

section \<open>The camera manager: \<open>CameraManager\<close>\<close>

text \<open>
  An analyzer object, as far as the manager looks at it: which one it is (the
  number of the constructor call that built it) and what its \<open>is_opened()\<close>
  answers. An analyzer class is what its constructor does when called as the
  \<open>n\<close>-th construction: raise, or build an analyzer.

  The manager is modelled at the points where \<open>start\<close> and \<open>stop\<close> hold the lock;
  the capture thread is a handle, its loop is not modelled. Two counters that
  the code does not have record the constructor calls and the \<open>release()\<close> calls
  made so far.
\<close>

record analyzer_object =
  analyzer_id :: nat
  is_opened :: bool

datatype capture_thread = CaptureThread nat


record 'f camera_manager =
  analyzer :: "analyzer_object option"
  analyzer_type :: "string option"
  frame :: "'f option"
  running :: bool
  thread :: "capture_thread option"
  constructed :: nat
  released :: "nat list"


definition stop_internal :: "'f camera_manager \<Rightarrow> 'f camera_manager" where
  "stop_internal m =
     (let m1 = m\<lparr> running := False \<rparr>;
          m2 = (case thread m1 of None \<Rightarrow> m1 | Some t \<Rightarrow> m1\<lparr> thread := None \<rparr>);
          m3 = (case analyzer m2 of
                  None \<Rightarrow> m2
                | Some a \<Rightarrow> m2\<lparr> released := released m2 @ [analyzer_id a], analyzer := None \<rparr>)
      in m3\<lparr> frame := None, analyzer_type := None \<rparr>)"


definition stop :: "'f camera_manager \<Rightarrow> 'f camera_manager" where
  "stop m = stop_internal m"

section \<open>Runs and reachable states of the mobile squat analyzer\<close>

text \<open>Feeding a list of frames, each with a pose, one after the other.\<close>

definition replay :: "squat_analyzer_mobile \<Rightarrow> landmarks list \<Rightarrow> squat_analyzer_mobile" where
  "replay s frames = foldl (\<lambda>t lms. process_frame t (Some lms)) s frames"

text \<open>
  The states an instance can be in: built by \<open>__init__\<close>, then any number of
  \<open>process_frame\<close> and \<open>reset\<close> calls.
\<close>

inductive reachable :: "squat_analyzer_mobile \<Rightarrow> bool" where
  reachable_init: "reachable squat_mobile_init"
| reachable_frame: "reachable s \<Longrightarrow> reachable (process_frame s pose)"
| reachable_reset: "reachable s \<Longrightarrow> reachable (squat_reset s)"

text \<open>The smoothed knee angle that \<open>process_frame\<close> computes for a frame.\<close>

definition smoothed_knee_angle :: "'a squat_analyzer_mobile_scheme \<Rightarrow> landmarks \<Rightarrow> real" where
  "smoothed_knee_angle s lms =
     window_mean (push (knee_history s)
       (calculate_angle (get_landmark lms LEFT_HIP) (get_landmark lms LEFT_KNEE)
          (get_landmark lms LEFT_ANKLE)))"

definition fully_visible :: "landmarks \<Rightarrow> bool" where
  "fully_visible lms =
     all_visible (get_landmark lms LEFT_SHOULDER) (get_landmark lms LEFT_HIP)
       (get_landmark lms LEFT_KNEE) (get_landmark lms LEFT_ANKLE)"

text \<open>
  What holds in every reachable state: the sequence, when it is not empty, ends
  with the current stage; at stage S3 the knee window is not empty and its mean is
  at most 95; the knee window holds at most five angles, all between 0 and 180;
  the depth hold is not negative; and every recorded stage other than S3 and
  every frame counted in the depth hold stands for a frame of its own that went
  into the window.
\<close>

definition squat_inv :: "squat_analyzer_mobile \<Rightarrow> bool" where
  "squat_inv s \<longleftrightarrow>
     (sequence s \<noteq> [] \<longrightarrow> stage s = Some (last (sequence s))) \<and>
     (stage s = Some S3 \<longrightarrow> knee_history s \<noteq> [] \<and> window_mean (knee_history s) \<le> 95) \<and>
     list_all (\<lambda>v. 0 \<le> v \<and> v \<le> 180) (knee_history s) \<and>
     length (knee_history s) \<le> 5 \<and>
     0 \<le> depth_hold s \<and>
     min 5 (length (filter (\<lambda>x. x \<noteq> S3) (sequence s)) + nat (depth_hold s))
       \<le> length (knee_history s)"

section \<open>Concrete frames\<close>

definition lm :: "real \<Rightarrow> real \<Rightarrow> real \<Rightarrow> landmark" where
  "lm x y v = \<lparr> lm_x = x, lm_y = y, lm_visibility = v \<rparr>"

text \<open>
  A side view in normalised image coordinates (\<open>y\<close> grows downwards): shoulder,
  hip and knee on one vertical line, every landmark fully visible, the ankle where
  the argument puts it.
\<close>

definition side_view :: "real \<Rightarrow> real \<Rightarrow> landmarks" where
  "side_view ankle_x ankle_y =
     (\<lambda>n. lm (1 / 2) (1 / 10) 1)
       (LEFT_SHOULDER := lm (1 / 2) (2 / 10) 1, LEFT_HIP := lm (1 / 2) (5 / 10) 1,
        LEFT_KNEE := lm (1 / 2) (7 / 10) 1, LEFT_ANKLE := lm ankle_x ankle_y 1)"

text \<open>Leg straight (knee angle 180) and lower leg horizontal (knee angle 90).\<close>

definition standing :: landmarks where
  "standing = side_view (1 / 2) (9 / 10)"

definition bent :: landmarks where
  "bent = side_view (3 / 10) (7 / 10)"

text \<open>The standing pose with the ankle hidden.\<close>

definition hidden_ankle :: landmarks where
  "hidden_ankle = standing (LEFT_ANKLE := lm (1 / 2) (9 / 10) (1 / 2))"

text \<open>
  Down to the bottom, three frames held there: the smoothed knee angles are
  180, 135, 120, 112.5, 108, 90, 90, 90. Then the rise, smoothed knee angle 108.
\<close>

definition squat_down :: "landmarks list" where
  "squat_down = [standing, bent, bent, bent, bent, bent, bent, bent]"

definition at_bottom :: squat_analyzer_mobile where
  "at_bottom = replay squat_mobile_init squat_down"

text \<open>A shallow dip: smoothed knee angles 180, 135, 150, 157.5, then 162.\<close>

definition shallow_dip :: "landmarks list" where
  "shallow_dip = [standing, bent, standing, standing]"

definition after_dip :: squat_analyzer_mobile where
  "after_dip = replay squat_mobile_init shallow_dip"

text \<open>
  A front view, standing, in normalised coordinates, every landmark fully
  visible; the jump frames below are 640 wide and 360 high, so the nose is at
  height 108 in pixels.
\<close>

definition front_view :: landmarks where
  "front_view n =
     (case n of
        NOSE \<Rightarrow> lm (1 / 2) (3 / 10) 1
      | LEFT_INDEX \<Rightarrow> lm (3 / 10) (6 / 10) 1
      | RIGHT_INDEX \<Rightarrow> lm (7 / 10) (6 / 10) 1
      | LEFT_SHOULDER \<Rightarrow> lm (4 / 10) (4 / 10) 1
      | LEFT_HIP \<Rightarrow> lm (45 / 100) (6 / 10) 1
      | RIGHT_HIP \<Rightarrow> lm (55 / 100) (6 / 10) 1
      | LEFT_KNEE \<Rightarrow> lm (45 / 100) (75 / 100) 1
      | RIGHT_KNEE \<Rightarrow> lm (55 / 100) (75 / 100) 1
      | LEFT_ANKLE \<Rightarrow> lm (45 / 100) (9 / 10) 1
      | RIGHT_ANKLE \<Rightarrow> lm (55 / 100) (9 / 10) 1)"

text \<open>The right index finger on the nose: the ARM gesture.\<close>

definition arm_pose :: landmarks where
  "arm_pose = front_view (RIGHT_INDEX := lm (1 / 2) (3 / 10) 1)"

text \<open>Standing with the head a little lower: the nose at height 111.6 in pixels.\<close>

definition head_lower :: landmarks where
  "head_lower = front_view (NOSE := lm (1 / 2) (31 / 100) 1)"

definition capture :: "real \<Rightarrow> landmarks \<Rightarrow> jump_capture" where
  "capture t lms =
     \<lparr> cap_opened = True, ret = True, now = t, frame_h = 360, frame_w = 640,
       pose_landmarks = Some lms \<rparr>"

text \<open>The camera jump analyzer right after the ARM gesture, a tenth of a second after its construction.\<close>

definition just_armed :: jump_analyzer where
  "just_armed = jump_read_frame default_config (jump_init default_config 1000)
                  (capture (10001 / 10) arm_pose)"

text \<open>
  An analyzer in the airborne phase, with a peak of 60 pixels above the baseline,
  on its way down.
\<close>

definition in_flight :: jump_analyzer where
  "in_flight =
     \<lparr> state = airborne, baseline_nose_y = Some 108, peak_delta_pixels = 60,
       last_land_time = 0, last_jump_result = None, prev_dy = Some 40, airborne_frames = 5,
       prev_time = 1001, fps = 10, dy_debug = 40, vel_debug = - 200, nose_history = [106],
       steady_frames = 0, min_airborne_frames = 6 \<rparr>"

text \<open>The mobile jump analyzer after one frame of the front view; then the ankles 2% lower.\<close>

definition mobile_standing :: jump_analyzer_mobile where
  "mobile_standing = jump_process_frame jump_mobile_init (Some front_view) 480"

definition ankles_lower :: landmarks where
  "ankles_lower = front_view
     (LEFT_ANKLE := lm (45 / 100) (92 / 100) 1, RIGHT_ANKLE := lm (55 / 100) (92 / 100) 1)"




section \<open>The cheat condition in the words of the specification\<close>

text \<open>
  The specification's condition, read off the pixel coordinates of the six
  landmarks whatever their visibility: the average knee angle is below 150
  degrees, and the hip midpoint is not more than 20 pixels above the knee
  midpoint or the ankle midpoint is horizontally within 60 pixels of the hip
  midpoint.
\<close>

definition pixel_xy :: "landmarks \<Rightarrow> pose_landmark \<Rightarrow> int \<Rightarrow> int \<Rightarrow> real \<times> real" where
  "pixel_xy lms name w h = (lm_x (lms name) * real_of_int w, lm_y (lms name) * real_of_int h)"

definition cheat_posture :: "landmarks \<Rightarrow> int \<Rightarrow> int \<Rightarrow> bool" where
  "cheat_posture lms w h =
     (let p = (\<lambda>name. pixel_xy lms name w h);
          hip_y = (snd (p LEFT_HIP) + snd (p RIGHT_HIP)) / 2;
          knee_y = (snd (p LEFT_KNEE) + snd (p RIGHT_KNEE)) / 2;
          ankle_x = (fst (p LEFT_ANKLE) + fst (p RIGHT_ANKLE)) / 2;
          hip_x = (fst (p LEFT_HIP) + fst (p RIGHT_HIP)) / 2;
          knee_angle = (angle (p LEFT_HIP) (p LEFT_KNEE) (p LEFT_ANKLE)
                        + angle (p RIGHT_HIP) (p RIGHT_KNEE) (p RIGHT_ANKLE)) / 2
      in knee_angle < 150 \<and> (hip_y > knee_y - 20 \<or> \<bar>ankle_x - hip_x\<bar> < 60))"

definition all_cheat_landmarks_visible :: "landmarks \<Rightarrow> bool" where
  "all_cheat_landmarks_visible lms =
     list_all (\<lambda>name. lm_visibility (lms name) \<ge> 4 / 10) cheat_landmarks"

section \<open>Quantities of one frame of the mobile jump analyzer\<close>

text \<open>
  The smoothed ankle height that \<open>process_frame\<close> computes for a frame, and the
  baseline it measures against: the stored one, or the smoothed height itself
  when none is stored yet.
\<close>

definition smooth_ankle_y :: "jump_analyzer_mobile \<Rightarrow> landmarks \<Rightarrow> real" where
  "smooth_ankle_y j lms =
     window_mean (push (y_history j) ((lm_y (lms LEFT_ANKLE) + lm_y (lms RIGHT_ANKLE)) / 2))"

definition current_baseline :: "jump_analyzer_mobile \<Rightarrow> landmarks \<Rightarrow> real" where
  "current_baseline j lms =
     (case baseline_y j of None \<Rightarrow> smooth_ankle_y j lms | Some b \<Rightarrow> b)"

section \<open>Replays\<close>

text \<open>
  The frames of a list, fed one after the other from the state \<open>s\<close>, are all
  fully visible and each of them ends at the stage \<open>X\<close>.
\<close>

fun hold_stage :: "stage \<Rightarrow> squat_analyzer_mobile \<Rightarrow> landmarks list \<Rightarrow> bool" where
  "hold_stage X s [] = True"
| "hold_stage X s (f # fs) =
     (fully_visible f \<and> stage (process_frame s (Some f)) = Some X
      \<and> hold_stage X (process_frame s (Some f)) fs)"

text \<open>The three parts of the way down: standing, lowering, held at the bottom.\<close>

definition stand_frames :: "landmarks list" where
  "stand_frames = [standing]"

definition lowering_frames :: "landmarks list" where
  "lowering_frames = [bent, bent, bent, bent]"

definition bottom_frames :: "landmarks list" where
  "bottom_frames = [bent, bent, bent]"

text \<open>The camera squat analyzer on a list of frames, every camera read succeeding.\<close>

definition camera_replay :: "squat_analyzer \<Rightarrow> landmarks list \<Rightarrow> squat_analyzer" where
  "camera_replay s frames = foldl (\<lambda>t lms. read_frame t True (Some lms)) s frames"

definition camera_after_dip :: squat_analyzer where
  "camera_after_dip = camera_replay squat_init shallow_dip"


text \<open>
  A jump in front of the camera, ten frames a second, the analyzer built at time
  1000. The ARM gesture and four frames standing still; then the head 90 pixels
  higher (nose at height 18) for two frames, and back on the ground for five.
\<close>

definition head_high :: landmarks where
  "head_high = front_view (NOSE := lm (1 / 2) (5 / 100) 1)"





section \<open>Properties of the sliding window\<close>

lemma push_length_le: "length h \<le> 5 \<Longrightarrow> length (push h v) \<le> 5"
  by (simp add: push_def deque_append_def)

lemma push_nonempty: "push h v \<noteq> []"
  by (simp add: push_def deque_append_def)

lemma push_last_five:
  "length h \<le> 5 \<Longrightarrow> push h v = drop (length (h @ [v]) - 5) (h @ [v])"
  by (simp add: push_def deque_append_def)

lemma foldl_push_last_five:
  "length h \<le> 5 \<Longrightarrow>
   foldl push h vs = drop (length (h @ vs) - 5) (h @ vs) \<and> length (foldl push h vs) \<le> 5"
proof (induction vs arbitrary: h)
  case Nil
  then show ?case by simp
next
  case (Cons v vs)
  have len: "length (push h v) \<le> 5"
    using Cons.prems by (rule push_length_le)
  have step: "push h v = drop (length (h @ [v]) - 5) (h @ [v])"
    using Cons.prems by (rule push_last_five)
  have "foldl push (push h v) vs
          = drop (length (push h v @ vs) - 5) (push h v @ vs)"
    using Cons.IH [OF len] by simp
  also have "\<dots> = drop (length (h @ v # vs) - 5) (h @ v # vs)"
  proof (cases "length h < 5")
    case True
    then show ?thesis using step by simp
  next
    case False
    then have "length h = 5" using Cons.prems by simp
    then show ?thesis by (simp add: push_def deque_append_def)
  qed
  finally show ?case using Cons.IH [OF len] by simp
qed

lemma push_all_last_five: "push_all vs = drop (length vs - 5) vs"
  using foldl_push_last_five [of "[]" vs] by (simp add: push_all_def)

text \<open>
  Claim C7. In the window of capacity 5, the mean after a single push of \<open>v\<close> is
  \<open>v\<close>; after pushing more than 5 values, the mean is the arithmetic mean of the 5
  values pushed last, the older ones having been evicted.
\<close>

theorem sliding_window_mean:
  "window_mean (push [] v) = v \<and>
   (length vs > 5 \<longrightarrow>
      push_all vs = drop (length vs - 5) vs \<and>
      length (push_all vs) = 5 \<and>
      window_mean (push_all vs) = sum_list (drop (length vs - 5) vs) / 5)"
  by (simp add: push_all_last_five window_mean_def push_def deque_append_def)

theorem sliding_window_mean_witness:
  "length [10, 20, 30, 40, 50, 60, 70 :: real] > 5 \<and>
   push_all [10, 20, 30, 40, 50, 60, 70] = [30, 40, 50, 60, 70] \<and>
   window_mean (push_all [10, 20, 30, 40, 50, 60, 70]) = 50"
  using sliding_window_mean [of 0 "[10, 20, 30, 40, 50, 60, 70]"]
  by (simp add: window_mean_def)

section \<open>Angles of the concrete frames\<close>

lemma arctan2_up: "0 < y \<Longrightarrow> arctan2 y 0 = pi / 2"
  unfolding arctan2_def by (rule cis_Arg_unique) (simp_all add: sgn_eq complex_eq_iff cmod_def)

lemma arctan2_down: "y < 0 \<Longrightarrow> arctan2 y 0 = - pi / 2"
proof -
  assume y: "y < 0"
  have le: "- pi / 2 \<le> pi" using pi_gt_zero by linarith
  have "Arg (Complex 0 y) = - pi / 2"
    by (rule cis_Arg_unique) (use y le in \<open>simp_all add: sgn_eq complex_eq_iff cmod_def\<close>)
  then show ?thesis by (simp add: arctan2_def)
qed

lemma arctan2_left: "x < 0 \<Longrightarrow> arctan2 0 x = pi"
  unfolding arctan2_def by (rule cis_Arg_unique) (simp_all add: sgn_eq complex_eq_iff cmod_def)

lemma knee_standing: "calculate_angle (get_landmark standing LEFT_HIP) (get_landmark standing LEFT_KNEE) (get_landmark standing LEFT_ANKLE) = 180"
  by (simp add: calculate_angle_def get_landmark_def standing_def side_view_def lm_def arctan2_up arctan2_down)

lemma knee_bent: "calculate_angle (get_landmark bent LEFT_HIP) (get_landmark bent LEFT_KNEE) (get_landmark bent LEFT_ANKLE) = 90"
  by (simp add: calculate_angle_def get_landmark_def bent_def side_view_def lm_def arctan2_up arctan2_down arctan2_left)

lemma back_side_view: "calculate_angle (get_landmark (side_view x y) LEFT_SHOULDER) (get_landmark (side_view x y) LEFT_HIP) (get_landmark (side_view x y) LEFT_KNEE) = 180"
  by (simp add: calculate_angle_def get_landmark_def side_view_def lm_def arctan2_up arctan2_down arctan2_left)

lemma visible_side_view: "fully_visible (side_view x y)"
  by (simp add: fully_visible_def all_visible_def get_landmark_def side_view_def lm_def VISIBILITY_THRESHOLD_def)

lemmas frame_simps = process_frame_def track_frame_def resolve_rep_mobile_def form_feedback_def
  classify_stage_def push_def deque_append_def window_mean_def last_three_def count_correct_def
  STAGE_S1_THRESHOLD_def STAGE_S2_THRESHOLD_def Let_def knee_standing knee_bent
  back_side_view [of "1/2" "9/10", folded standing_def] back_side_view [of "3/10" "7/10", folded bent_def]
  visible_side_view [of "1/2" "9/10", folded standing_def, unfolded fully_visible_def]
  visible_side_view [of "3/10" "7/10", folded bent_def, unfolded fully_visible_def]

lemma ankle_standing: "lm_x (get_landmark standing LEFT_ANKLE) = 1/2" "lm_x (get_landmark standing LEFT_KNEE) = 1/2"
   "lm_x (get_landmark bent LEFT_ANKLE) = 3/10" "lm_x (get_landmark bent LEFT_KNEE) = 1/2"
  by (simp_all add: get_landmark_def standing_def bent_def side_view_def lm_def)

lemma at_bottom_eq: "at_bottom =
   \<lparr> correct_counter = 0, incorrect_counter = 0, stage = Some S3, sequence = [S1, S2, S3],
     feedback = Some ''Bend backwards'', knee_history = [90, 90, 90, 90, 90],
     back_history = [180, 180, 180, 180, 180], depth_hold = 3, min_knee_angle = 90 \<rparr>"
  by (simp add: at_bottom_def replay_def squat_down_def squat_mobile_init_def frame_simps ankle_standing)

lemma rise_eq: "process_frame at_bottom (Some standing) =
   \<lparr> correct_counter = 1, incorrect_counter = 0, stage = Some S2, sequence = [],
     feedback = Some ''Bend backwards'', knee_history = [90, 90, 90, 90, 180],
     back_history = [180, 180, 180, 180, 180], depth_hold = 0, min_knee_angle = 180 \<rparr>"
  by (simp add: at_bottom_eq frame_simps ankle_standing)

lemma after_dip_eq: "after_dip =
   \<lparr> correct_counter = 0, incorrect_counter = 0, stage = Some S2, sequence = [S1, S2],
     feedback = Some ''Bend backwards'', knee_history = [180, 90, 180, 180],
     back_history = [180, 180, 180, 180], depth_hold = 0, min_knee_angle = 135 \<rparr>"
  by (simp add: after_dip_def replay_def shallow_dip_def squat_mobile_init_def frame_simps ankle_standing)

lemma dip_end_eq: "process_frame after_dip (Some standing) =
   \<lparr> correct_counter = 0, incorrect_counter = 1, stage = Some S1, sequence = [],
     feedback = Some ''Bend backwards'', knee_history = [180, 90, 180, 180, 180],
     back_history = [180, 180, 180, 180, 180], depth_hold = 0, min_knee_angle = 135 \<rparr>"
  by (simp add: after_dip_eq frame_simps ankle_standing)


section \<open>One frame of the squat analyzers, step by step\<close>

lemma track_frame_fields:
  "track_frame s a b c d = (k, bk, s') \<Longrightarrow>
     correct_counter s' = correct_counter s \<and> incorrect_counter s' = incorrect_counter s
     \<and> min_knee_angle s' = min (min_knee_angle s) k
     \<and> k = window_mean (push (knee_history s) (calculate_angle b c d))"
  by (auto simp: track_frame_def Let_def)

lemma resolve_rep_mobile_counters:
  "resolve_rep_mobile k s = (fb, s') \<Longrightarrow>
     correct_counter s \<le> correct_counter s' \<and> incorrect_counter s \<le> incorrect_counter s'
     \<and> correct_counter s' + incorrect_counter s' \<le> correct_counter s + incorrect_counter s + 1"
  by (auto simp: resolve_rep_mobile_def count_correct_def split: if_splits)

lemma resolve_rep_mobile_min_knee:
  "resolve_rep_mobile k s = (fb, s') \<Longrightarrow>
     (correct_counter s' \<noteq> correct_counter s \<longrightarrow> min_knee_angle s' = 180) \<and>
     (incorrect_counter s' \<noteq> incorrect_counter s \<longrightarrow> min_knee_angle s' = min_knee_angle s)"
  by (auto simp: resolve_rep_mobile_def count_correct_def split: if_splits)

lemma resolve_rep_camera_min_knee:
  "resolve_rep_camera s = (fb, s') \<Longrightarrow>
     (correct_counter s' \<noteq> correct_counter s \<longrightarrow> min_knee_angle s' = 180) \<and>
     (incorrect_counter s' \<noteq> incorrect_counter s \<longrightarrow> min_knee_angle s' = min_knee_angle s)"
  by (auto simp: resolve_rep_camera_def count_correct_def split: if_splits)

lemma process_frame_visible:
  assumes "fully_visible lms"
  obtains k bk s1 fb s2 where
    "track_frame s (get_landmark lms LEFT_SHOULDER) (get_landmark lms LEFT_HIP)
       (get_landmark lms LEFT_KNEE) (get_landmark lms LEFT_ANKLE) = (k, bk, s1)"
    "resolve_rep_mobile k s1 = (fb, s2)"
    "process_frame s (Some lms) =
       s2\<lparr> feedback := form_feedback k bk (stage s2) (min_knee_angle s2)
                          (get_landmark lms LEFT_ANKLE) (get_landmark lms LEFT_KNEE) fb \<rparr>"
proof -
  obtain k bk s1 where t: "track_frame s (get_landmark lms LEFT_SHOULDER) (get_landmark lms LEFT_HIP)
       (get_landmark lms LEFT_KNEE) (get_landmark lms LEFT_ANKLE) = (k, bk, s1)"
    by (metis prod_cases3)
  obtain fb s2 where r: "resolve_rep_mobile k s1 = (fb, s2)"
    by (metis surj_pair)
  show ?thesis
    using that [OF t r] assms t r by (simp add: process_frame_def fully_visible_def Let_def)
qed

lemma process_frame_hidden:
  "\<not> fully_visible lms \<Longrightarrow> process_frame s (Some lms) = s\<lparr> feedback := Some not_visible_message \<rparr>"
  by (simp add: process_frame_def fully_visible_def Let_def)

lemma speak_fields:
  "correct_counter (speak s t) = correct_counter s" "incorrect_counter (speak s t) = incorrect_counter s"
  "min_knee_angle (speak s t) = min_knee_angle s"
  by (simp_all add: speak_def)

lemma read_frame_visible:
  assumes "fully_visible lms"
  obtains k bk s1 fb s2 fb' where
    "track_frame s (get_landmark lms LEFT_SHOULDER) (get_landmark lms LEFT_HIP)
       (get_landmark lms LEFT_KNEE) (get_landmark lms LEFT_ANKLE) = (k, bk, s1)"
    "resolve_rep_camera s1 = (fb, s2)"
    "read_frame s True (Some lms) = speak (s2\<lparr> feedback := fb' \<rparr>) fb'"
proof -
  obtain k bk s1 where t: "track_frame s (get_landmark lms LEFT_SHOULDER) (get_landmark lms LEFT_HIP)
       (get_landmark lms LEFT_KNEE) (get_landmark lms LEFT_ANKLE) = (k, bk, s1)"
    by (metis prod_cases3)
  obtain fb s2 where r: "resolve_rep_camera s1 = (fb, s2)"
    by (metis surj_pair)
  show ?thesis
    using that [OF t r] assms t r by (simp add: read_frame_def fully_visible_def Let_def)
qed

lemma read_frame_hidden:
  "\<not> fully_visible lms \<Longrightarrow>
   read_frame s True (Some lms) =
     speak (s\<lparr> feedback := Some not_visible_message \<rparr>) (Some not_visible_message)"
  by (simp add: read_frame_def fully_visible_def Let_def)

lemma not_visible_iff:
  "\<not> fully_visible lms \<longleftrightarrow>
     lm_visibility (lms LEFT_SHOULDER) \<le> 8 / 10 \<or> lm_visibility (lms LEFT_HIP) \<le> 8 / 10 \<or>
     lm_visibility (lms LEFT_KNEE) \<le> 8 / 10 \<or> lm_visibility (lms LEFT_ANKLE) \<le> 8 / 10"
  by (auto simp: fully_visible_def all_visible_def get_landmark_def VISIBILITY_THRESHOLD_def)

section \<open>Counters of the mobile squat analyzer\<close>

text \<open>
  Claim C10. Across every call of \<open>process_frame\<close> of the mobile squat analyzer,
  \<open>correct_counter\<close> and \<open>incorrect_counter\<close> do not decrease and their sum grows by
  at most one; \<open>reset\<close> puts both back to zero.
\<close>

theorem counters_monotone:
  "correct_counter s \<le> correct_counter (process_frame s pose) \<and>
   incorrect_counter s \<le> incorrect_counter (process_frame s pose) \<and>
   correct_counter (process_frame s pose) + incorrect_counter (process_frame s pose)
     \<le> correct_counter s + incorrect_counter s + 1 \<and>
   correct_counter (squat_reset s) = 0 \<and> incorrect_counter (squat_reset s) = 0"
proof (cases pose)
  case None
  then show ?thesis by (simp add: process_frame_def squat_reset_def)
next
  case (Some lms)
  show ?thesis
  proof (cases "fully_visible lms")
    case False
    then show ?thesis using Some by (simp add: process_frame_hidden squat_reset_def)
  next
    case True
    then obtain k bk s1 fb s2 where
      t: "track_frame s (get_landmark lms LEFT_SHOULDER) (get_landmark lms LEFT_HIP)
            (get_landmark lms LEFT_KNEE) (get_landmark lms LEFT_ANKLE) = (k, bk, s1)"
      and r: "resolve_rep_mobile k s1 = (fb, s2)"
      and p: "process_frame s (Some lms) =
                s2\<lparr> feedback := form_feedback k bk (stage s2) (min_knee_angle s2)
                          (get_landmark lms LEFT_ANKLE) (get_landmark lms LEFT_KNEE) fb \<rparr>"
      by (rule process_frame_visible)
    show ?thesis
      using track_frame_fields [OF t] resolve_rep_mobile_counters [OF r]
      by (simp add: Some p squat_reset_def)
  qed
qed

section \<open>Reset\<close>

text \<open>
  Claim C6. Whatever state the instance is in, \<open>reset()\<close> of the mobile squat
  analyzer and of the mobile jump analyzer gives exactly the state that
  \<open>__init__\<close> builds: counters zero, stage cleared, sequence and windows empty,
  depth hold 0, minimum knee angle 180, baseline and feedback cleared.
\<close>

theorem reset_is_initial:
  "squat_reset s = squat_mobile_init \<and> jump_reset j = jump_mobile_init"
  by (simp add: squat_reset_def squat_mobile_init_def jump_reset_def jump_mobile_init_def)

section \<open>The speech queue\<close>

lemma speak_queue:
  "speech_queue (speak s text) =
     (if truthy text \<and> text \<noteq> last_feedback s then speech_queue s @ [the text]
      else speech_queue s)"
  by (simp add: speak_def)

lemma speak_last:
  "last_feedback (speak s text) =
     (if truthy text \<and> text \<noteq> last_feedback s then text else last_feedback s)"
  by (simp add: speak_def)

lemma speak_twice: "speak (speak s text) text = speak s text"
  by (simp add: speak_def)

lemma speak_three:
  assumes "X \<noteq> Y" "X \<noteq> []" "Y \<noteq> []" "last_feedback s \<noteq> Some X"
  shows "speech_queue (speak (speak (speak s (Some X)) (Some Y)) (Some X)) = speech_queue s @ [X, Y, X]"
proof -
  have 1: "last_feedback (speak s (Some X)) = Some X"
    and q1: "speech_queue (speak s (Some X)) = speech_queue s @ [X]"
    using assms by (simp_all add: speak_last speak_queue truthy_def)
  have 2: "last_feedback (speak (speak s (Some X)) (Some Y)) = Some Y"
    and q2: "speech_queue (speak (speak s (Some X)) (Some Y)) = speech_queue s @ [X, Y]"
    using assms 1 q1 by (simp_all add: speak_last speak_queue truthy_def)
  show ?thesis
    using assms 2 q2 by (simp add: speak_queue truthy_def)
qed

text \<open>
  Claim C8. \<open>_speak\<close> suppresses consecutive duplicates only: saying a text twice
  in a row enqueues it once; saying the text that was accepted last enqueues
  nothing; \<open>X\<close>, \<open>Y\<close>, \<open>X\<close> with \<open>X \<noteq> Y\<close> enqueues three items; in general a call
  enqueues its text exactly when the text is non-empty and differs from the text
  accepted last, which it then becomes.
\<close>

theorem speak_suppresses_consecutive_duplicates:
  "speak (speak s text) text = speak s text \<and>
   (last_feedback s = Some T \<longrightarrow> speech_queue (speak s (Some T)) = speech_queue s) \<and>
   (X \<noteq> Y \<and> X \<noteq> [] \<and> Y \<noteq> [] \<and> last_feedback s \<noteq> Some X \<longrightarrow>
      speech_queue (speak (speak (speak s (Some X)) (Some Y)) (Some X)) = speech_queue s @ [X, Y, X]) \<and>
   speech_queue (speak s (Some Z)) =
      (if Z \<noteq> [] \<and> last_feedback s \<noteq> Some Z then speech_queue s @ [Z] else speech_queue s) \<and>
   speech_queue (speak s None) = speech_queue s \<and>
   last_feedback (speak s (Some Z)) =
      (if Z \<noteq> [] \<and> last_feedback s \<noteq> Some Z then Some Z else last_feedback s)"
proof (intro conjI impI)
  show "speak (speak s text) text = speak s text" by (rule speak_twice)
  show "speech_queue (speak s (Some T)) = speech_queue s" if "last_feedback s = Some T"
    using that by (simp add: speak_queue)
  show "speech_queue (speak (speak (speak s (Some X)) (Some Y)) (Some X)) = speech_queue s @ [X, Y, X]"
    if "X \<noteq> Y \<and> X \<noteq> [] \<and> Y \<noteq> [] \<and> last_feedback s \<noteq> Some X"
    using that by (simp add: speak_three)
  show "speech_queue (speak s (Some Z)) =
      (if Z \<noteq> [] \<and> last_feedback s \<noteq> Some Z then speech_queue s @ [Z] else speech_queue s)"
    by (auto simp: speak_queue truthy_def)
  show "speech_queue (speak s None) = speech_queue s"
    by (simp add: speak_queue truthy_def)
  show "last_feedback (speak s (Some Z)) =
      (if Z \<noteq> [] \<and> last_feedback s \<noteq> Some Z then Some Z else last_feedback s)"
    by (auto simp: speak_last truthy_def)
qed

theorem speak_suppresses_consecutive_duplicates_witness:
  "speech_queue (speak (speak (speak squat_init (Some ''Bend forward'')) (Some ''Correct Squat''))
      (Some ''Bend forward'')) = [''Bend forward'', ''Correct Squat'', ''Bend forward''] \<and>
   speech_queue (speak (speak squat_init (Some ''Bend forward'')) (Some ''Bend forward''))
     = [''Bend forward'']"
  using speak_suppresses_consecutive_duplicates
          [of squat_init "Some ''Bend forward''" "''Bend forward''" "''Bend forward''" "''Correct Squat''" "''Bend forward''"]
  by (simp add: squat_init_def)

section \<open>Frames with a hidden landmark\<close>

lemma hidden_ankle_not_visible: "lm_visibility (hidden_ankle LEFT_ANKLE) \<le> 8 / 10"
  by (simp add: hidden_ankle_def lm_def)

text \<open>
  Claim C5. On a frame in which the shoulder, the hip, the knee or the ankle has a
  visibility that is not above 0.8, the squat analyzers (mobile and camera) set
  the feedback to "Please make your full body visible" and change nothing else
  of the classification: counters, stage, sequence, depth hold, minimum knee
  angle and both angle windows stay as they are. The camera class also passes
  the message to \<open>_speak\<close>.
\<close>

theorem hidden_landmark_frame:
  assumes "lm_visibility (lms LEFT_SHOULDER) \<le> 8 / 10 \<or> lm_visibility (lms LEFT_HIP) \<le> 8 / 10 \<or>
           lm_visibility (lms LEFT_KNEE) \<le> 8 / 10 \<or> lm_visibility (lms LEFT_ANKLE) \<le> 8 / 10"
  shows "process_frame s (Some lms) = s\<lparr> feedback := Some ''Please make your full body visible'' \<rparr> \<and>
         read_frame c True (Some lms) =
           c\<lparr> feedback := Some ''Please make your full body visible'',
              last_feedback := Some ''Please make your full body visible'',
              speech_queue :=
                (if last_feedback c = Some ''Please make your full body visible'' then speech_queue c
                 else speech_queue c @ [''Please make your full body visible'']) \<rparr>"
proof -
  have hidden: "\<not> fully_visible lms"
    using assms by (simp add: not_visible_iff)
  have mobile: "process_frame s (Some lms) = s\<lparr> feedback := Some ''Please make your full body visible'' \<rparr>"
    using hidden by (simp add: process_frame_hidden not_visible_message_def)
  have camera: "read_frame c True (Some lms) =
           c\<lparr> feedback := Some ''Please make your full body visible'',
              last_feedback := Some ''Please make your full body visible'',
              speech_queue :=
                (if last_feedback c = Some ''Please make your full body visible'' then speech_queue c
                 else speech_queue c @ [''Please make your full body visible'']) \<rparr>"
    using hidden by (simp add: read_frame_hidden not_visible_message_def speak_def truthy_def)
  show ?thesis using mobile camera by (rule conjI)
qed

theorem hidden_landmark_frame_witness:
  "lm_visibility (hidden_ankle LEFT_ANKLE) \<le> 8 / 10 \<and>
   process_frame at_bottom (Some hidden_ankle) =
     at_bottom\<lparr> feedback := Some ''Please make your full body visible'' \<rparr> \<and>
   correct_counter (process_frame at_bottom (Some hidden_ankle)) = 0 \<and>
   sequence (process_frame at_bottom (Some hidden_ankle)) = [S1, S2, S3] \<and>
   depth_hold (process_frame at_bottom (Some hidden_ankle)) = 3 \<and>
   knee_history (process_frame at_bottom (Some hidden_ankle)) = [90, 90, 90, 90, 90] \<and>
   speech_queue (read_frame squat_init True (Some hidden_ankle)) =
     [''Please make your full body visible'']"
  using hidden_landmark_frame [of hidden_ankle at_bottom squat_init] hidden_ankle_not_visible
  by (simp add: at_bottom_eq squat_init_def)

section \<open>The minimum knee angle when a rep is resolved\<close>

text \<open>
  What the two squat classes do: a call that counts a correct rep ends with
  \<open>min_knee_angle\<close> at 180; a call that counts an incorrect rep ends with the
  running minimum, the smaller of the previous minimum and the frame's smoothed
  knee angle.
\<close>

lemma min_knee_after_rep:
  "(correct_counter (process_frame s pose) \<noteq> correct_counter s \<longrightarrow>
      min_knee_angle (process_frame s pose) = 180) \<and>
   (incorrect_counter (process_frame s (Some lms)) \<noteq> incorrect_counter s \<longrightarrow>
      min_knee_angle (process_frame s (Some lms)) = min (min_knee_angle s) (smoothed_knee_angle s lms)) \<and>
   (correct_counter (read_frame c r pose) \<noteq> correct_counter c \<longrightarrow>
      min_knee_angle (read_frame c r pose) = 180) \<and>
   (incorrect_counter (read_frame c r (Some lms)) \<noteq> incorrect_counter c \<longrightarrow>
      min_knee_angle (read_frame c r (Some lms)) = min (min_knee_angle c) (smoothed_knee_angle c lms))"
proof -
  have mobile: "(correct_counter (process_frame s (Some l)) \<noteq> correct_counter s \<longrightarrow>
      min_knee_angle (process_frame s (Some l)) = 180) \<and>
   (incorrect_counter (process_frame s (Some l)) \<noteq> incorrect_counter s \<longrightarrow>
      min_knee_angle (process_frame s (Some l)) = min (min_knee_angle s) (smoothed_knee_angle s l))" for l
  proof (cases "fully_visible l")
    case False
    then show ?thesis by (simp add: process_frame_hidden)
  next
    case True
    then obtain k bk s1 fb s2 where
      t: "track_frame s (get_landmark l LEFT_SHOULDER) (get_landmark l LEFT_HIP)
            (get_landmark l LEFT_KNEE) (get_landmark l LEFT_ANKLE) = (k, bk, s1)"
      and r: "resolve_rep_mobile k s1 = (fb, s2)"
      and p: "process_frame s (Some l) =
                s2\<lparr> feedback := form_feedback k bk (stage s2) (min_knee_angle s2)
                          (get_landmark l LEFT_ANKLE) (get_landmark l LEFT_KNEE) fb \<rparr>"
      by (rule process_frame_visible)
    show ?thesis
      using track_frame_fields [OF t] resolve_rep_mobile_min_knee [OF r]
      by (simp add: p smoothed_knee_angle_def)
  qed
  have camera: "(correct_counter (read_frame c True (Some l)) \<noteq> correct_counter c \<longrightarrow>
      min_knee_angle (read_frame c True (Some l)) = 180) \<and>
   (incorrect_counter (read_frame c True (Some l)) \<noteq> incorrect_counter c \<longrightarrow>
      min_knee_angle (read_frame c True (Some l)) = min (min_knee_angle c) (smoothed_knee_angle c l))" for l
  proof (cases "fully_visible l")
    case False
    then show ?thesis by (simp add: read_frame_hidden speak_fields)
  next
    case True
    then obtain k bk s1 fb s2 fb' where
      t: "track_frame c (get_landmark l LEFT_SHOULDER) (get_landmark l LEFT_HIP)
            (get_landmark l LEFT_KNEE) (get_landmark l LEFT_ANKLE) = (k, bk, s1)"
      and r: "resolve_rep_camera s1 = (fb, s2)"
      and p: "read_frame c True (Some l) = speak (s2\<lparr> feedback := fb' \<rparr>) fb'"
      by (rule read_frame_visible)
    show ?thesis
      using track_frame_fields [OF t] resolve_rep_camera_min_knee [OF r]
      by (simp add: p speak_fields smoothed_knee_angle_def)
  qed
  have none_m: "correct_counter (process_frame s None) = correct_counter s"
    by (simp add: process_frame_def)
  have none_c: "correct_counter (read_frame c r None) = correct_counter c"
    by (simp add: read_frame_def speak_fields)
  have failed: "read_frame c False p = c" for p
    by (simp add: read_frame_def)
  have m1: "correct_counter (process_frame s pose) \<noteq> correct_counter s \<longrightarrow>
      min_knee_angle (process_frame s pose) = 180"
    using mobile none_m by (cases pose) simp_all
  have c1: "correct_counter (read_frame c r pose) \<noteq> correct_counter c \<longrightarrow>
      min_knee_angle (read_frame c r pose) = 180"
    using camera none_c failed by (cases pose; cases r) simp_all
  have c2: "incorrect_counter (read_frame c r (Some lms)) \<noteq> incorrect_counter c \<longrightarrow>
      min_knee_angle (read_frame c r (Some lms)) = min (min_knee_angle c) (smoothed_knee_angle c lms)"
    using camera failed by (cases r) simp_all
  show ?thesis using m1 mobile c1 c2 by blast
qed

lemma camera_after_dip_eq:
  "camera_after_dip =
     \<lparr> correct_counter = 0, incorrect_counter = 0, stage = Some S2, sequence = [S1, S2],
       feedback = Some ''Bend backwards'', knee_history = [180, 90, 180, 180],
       back_history = [180, 180, 180, 180], depth_hold = 0, min_knee_angle = 135,
       last_feedback = Some ''Bend backwards'', speech_queue = [''Bend backwards''] \<rparr>"
  by (simp add: camera_after_dip_def camera_replay_def shallow_dip_def squat_init_def
        read_frame_def resolve_rep_camera_def speak_def truthy_def DEPTH_HOLD_REQUIREMENT_def
        frame_simps ankle_standing)

lemma camera_dip_end_eq:
  "read_frame camera_after_dip True (Some standing) =
     \<lparr> correct_counter = 0, incorrect_counter = 1, stage = Some S1, sequence = [],
       feedback = Some ''Bend backwards'', knee_history = [180, 90, 180, 180, 180],
       back_history = [180, 180, 180, 180, 180], depth_hold = 0, min_knee_angle = 135,
       last_feedback = Some ''Bend backwards'', speech_queue = [''Bend backwards''] \<rparr>"
  by (simp add: camera_after_dip_eq read_frame_def resolve_rep_camera_def speak_def truthy_def
        DEPTH_HOLD_REQUIREMENT_def frame_simps ankle_standing)

text \<open>
  Claim C3. Every call of the squat classifier that resolves a rep, correct or
  incorrect, is to end with \<open>min_knee_angle\<close> reset to 180. The code does so on
  a correct rep only. After a shallow dip (smoothed knee angles 180, 135, 150,
  157.5, then 162) the frame that counts the incomplete squat leaves
  \<open>min_knee_angle\<close> at 135, in the mobile class and in the camera class alike,
  while the frame that counts the correct squat at the end of the full replay
  takes it from 90 to 180.
\<close>

theorem min_knee_kept_on_incorrect_rep:
  "incorrect_counter (process_frame after_dip (Some standing)) = incorrect_counter after_dip + 1 \<and>
   min_knee_angle after_dip = 135 \<and>
   min_knee_angle (process_frame after_dip (Some standing)) = 135 \<and>
   incorrect_counter (read_frame camera_after_dip True (Some standing))
     = incorrect_counter camera_after_dip + 1 \<and>
   min_knee_angle (read_frame camera_after_dip True (Some standing)) = 135 \<and>
   correct_counter (process_frame at_bottom (Some standing)) = correct_counter at_bottom + 1 \<and>
   min_knee_angle at_bottom = 90 \<and>
   min_knee_angle (process_frame at_bottom (Some standing)) = 180"
  unfolding dip_end_eq camera_dip_end_eq rise_eq
  by (simp add: after_dip_eq camera_after_dip_eq at_bottom_eq)

section \<open>Starting an analyzer on the camera manager\<close>






section \<open>Finalizing a jump\<close>

lemma detect_squat_cheat_iff:
  "detect_squat_cheat lms w h \<longleftrightarrow> all_cheat_landmarks_visible lms \<and> cheat_posture lms w h"
proof (cases "all_cheat_landmarks_visible lms")
  case False
  then have "list_ex (\<lambda>name. landmark_xy lms name w h = None) cheat_landmarks"
    by (auto simp: all_cheat_landmarks_visible_def cheat_landmarks_def landmark_xy_def Let_def)
  then show ?thesis using False by (simp add: detect_squat_cheat_def)
next
  case True
  then have vis: "landmark_xy lms name w h = Some (pixel_xy lms name w h)"
    if "name \<in> set cheat_landmarks" for name
    using that by (auto simp: all_cheat_landmarks_visible_def cheat_landmarks_def landmark_xy_def
        pixel_xy_def Let_def)
  have no: "\<not> list_ex (\<lambda>name. landmark_xy lms name w h = None) cheat_landmarks"
    using vis by (auto simp: list_ex_iff)
  have pts:
    "the (landmark_xy lms LEFT_HIP w h) = pixel_xy lms LEFT_HIP w h"
    "the (landmark_xy lms RIGHT_HIP w h) = pixel_xy lms RIGHT_HIP w h"
    "the (landmark_xy lms LEFT_KNEE w h) = pixel_xy lms LEFT_KNEE w h"
    "the (landmark_xy lms RIGHT_KNEE w h) = pixel_xy lms RIGHT_KNEE w h"
    "the (landmark_xy lms LEFT_ANKLE w h) = pixel_xy lms LEFT_ANKLE w h"
    "the (landmark_xy lms RIGHT_ANKLE w h) = pixel_xy lms RIGHT_ANKLE w h"
    using vis by (simp_all add: cheat_landmarks_def)
  have "detect_squat_cheat lms w h = cheat_posture lms w h"
    using no by (simp add: detect_squat_cheat_def cheat_posture_def Let_def pts)
  then show ?thesis using True by simp
qed

lemma finalize_jump_stores:
  "last_jump_result (finalize_jump cfg s lms w h) =
     Some \<lparr> inches = max 0 (peak_delta_pixels s) * inches_per_pixel cfg,
            valid = (\<not> max 0 (peak_delta_pixels s) * inches_per_pixel cfg < MIN_JUMP_INCHES cfg
                     \<and> \<not> detect_squat_cheat lms w h),
            reason = (if max 0 (peak_delta_pixels s) * inches_per_pixel cfg < MIN_JUMP_INCHES cfg
                      then ''too-small''
                      else if detect_squat_cheat lms w h then ''cheat'' else ''ok'') \<rparr>"
  by (simp add: finalize_jump_def Let_def)

lemma finalize_jump_peak: "peak_delta_pixels (finalize_jump cfg s lms w h) = peak_delta_pixels s"
  by (simp add: finalize_jump_def Let_def)

section \<open>One frame of the camera jump analyzer, step by step\<close>

lemma gestures_airborne:
  "state s = airborne \<Longrightarrow> arm_gesture s lms w h = s \<and> reset_gesture s lms w h = s"
  by (simp add: arm_gesture_def reset_gesture_def)

lemma finalize_jump_fields:
  "baseline_nose_y (finalize_jump cfg s lms w h) = baseline_nose_y s"
  "state (finalize_jump cfg s lms w h) = state s"
  by (simp_all add: finalize_jump_def Let_def)

lemma measure_nose_fields:
  assumes "measure_nose cfg s y b dt = (dy, vel, s1)"
  shows "state s1 = state s" "baseline_nose_y s1 = baseline_nose_y s"
    "peak_delta_pixels s1 = max (peak_delta_pixels s) dy"
    "5 \<le> steady_frames s1 \<Longrightarrow> \<bar>dy\<bar> < 4"
  using assms by (auto simp: measure_nose_def Let_def split: if_splits)

lemma phase_step_baseline:
  "baseline_nose_y (phase_step cfg s1 dy vel lms w h t) = baseline_nose_y s1"
  by (simp add: phase_step_def Let_def finalize_jump_fields)

lemma phase_step_peak:
  "peak_delta_pixels (phase_step cfg s1 dy vel lms w h t) = peak_delta_pixels s1"
  by (simp add: phase_step_def Let_def finalize_jump_peak)

lemma phase_step_landing:
  assumes "state s1 = airborne" "state (phase_step cfg s1 dy vel lms w h t) = landed"
  shows "last_jump_result (phase_step cfg s1 dy vel lms w h t) =
           last_jump_result (finalize_jump cfg s1 lms w h)"
proof -
  let ?s2 = "s1\<lparr> airborne_frames := airborne_frames s1 + 1 \<rparr>"
  let ?land = "dy < max 5 (1 / 100 * real_of_int h) \<and> vel < - (VEL_DOWN_PCT_OF_H cfg * real_of_int h)
                 \<and> airborne_frames ?s2 \<ge> min_airborne_frames ?s2"
  have eq: "phase_step cfg s1 dy vel lms w h t =
              (if ?land then (finalize_jump cfg (?s2\<lparr> state := landed, last_land_time := t \<rparr>)
                          lms w h)\<lparr> steady_frames := 0 \<rparr> else ?s2)"
    using assms(1) by (simp add: phase_step_def Let_def)
  have "?land"
  proof (rule ccontr)
    assume n: "\<not> ?land"
    have "phase_step cfg s1 dy vel lms w h t = ?s2"
      unfolding eq using n by (rule if_not_P)
    then show False using assms by simp
  qed
  then have "phase_step cfg s1 dy vel lms w h t =
      (finalize_jump cfg (?s2\<lparr> state := landed, last_land_time := t \<rparr>) lms w h)\<lparr> steady_frames := 0 \<rparr>"
    unfolding eq by (rule if_P)
  then show ?thesis by (simp add: finalize_jump_stores)
qed



lemma detect_jump_baseline:
  "baseline_nose_y (detect_jump cfg s lms w h dt t) = baseline_nose_y s"
proof (cases "landmark_xy lms NOSE w h")
  case None
  then show ?thesis by (simp add: detect_jump_def)
next
  case (Some p)
  show ?thesis
  proof (cases "baseline_nose_y s")
    case None
    then show ?thesis using Some by (simp add: detect_jump_def)
  next
    case (Some b)
    obtain dy vel s1 where m: "measure_nose cfg s (snd p) b dt = (dy, vel, s1)"
      by (metis prod_cases3)
    show ?thesis
      using \<open>landmark_xy lms NOSE w h = Some p\<close> Some m measure_nose_fields(2) [OF m]
      by (simp add: detect_jump_def phase_step_baseline)
  qed
qed


lemma detect_jump_landing:
  assumes "state s = airborne" "state (detect_jump cfg s lms w h dt t) = landed"
  shows "last_jump_result (detect_jump cfg s lms w h dt t) =
           last_jump_result (finalize_jump cfg (detect_jump cfg s lms w h dt t) lms w h)"
proof (cases "landmark_xy lms NOSE w h")
  case None
  then show ?thesis using assms by (simp add: detect_jump_def)
next
  case (Some p)
  show ?thesis
  proof (cases "baseline_nose_y s")
    case None
    then show ?thesis using Some assms by (simp add: detect_jump_def)
  next
    case (Some b)
    obtain dy vel s1 where m: "measure_nose cfg s (snd p) b dt = (dy, vel, s1)"
      by (metis prod_cases3)
    have eq: "detect_jump cfg s lms w h dt t = phase_step cfg s1 dy vel lms w h t"
      using \<open>landmark_xy lms NOSE w h = Some p\<close> Some m by (simp add: detect_jump_def)
    have st: "state s1 = airborne"
      using assms(1) measure_nose_fields(1) [OF m] by simp
    have "last_jump_result (phase_step cfg s1 dy vel lms w h t) =
            last_jump_result (finalize_jump cfg s1 lms w h)"
      using st assms(2) [unfolded eq] by (rule phase_step_landing)
    then show ?thesis
      by (simp add: eq finalize_jump_stores phase_step_peak)
  qed
qed


lemma jump_read_frame_no_frame:
  "\<not> (cap_opened c \<and> ret c) \<Longrightarrow> jump_read_frame cfg s c = s"
  by (auto simp: jump_read_frame_def)

lemma jump_read_frame_no_pose:
  "pose_landmarks c = None \<Longrightarrow>
     state (jump_read_frame cfg s c) = state s \<and>
     baseline_nose_y (jump_read_frame cfg s c) = baseline_nose_y s"
  by (auto simp: jump_read_frame_def Let_def)

lemma jump_read_frame_pose:
  assumes "cap_opened c" "ret c" "pose_landmarks c = Some lms"
  shows "\<exists>dt. state (jump_read_frame cfg s c) =
           state (detect_jump cfg (reset_gesture (arm_gesture s lms (frame_w c) (frame_h c)) lms
                    (frame_w c) (frame_h c)) lms (frame_w c) (frame_h c) dt (now c)) \<and>
         baseline_nose_y (jump_read_frame cfg s c) =
           baseline_nose_y (detect_jump cfg (reset_gesture (arm_gesture s lms (frame_w c) (frame_h c)) lms
                    (frame_w c) (frame_h c)) lms (frame_w c) (frame_h c) dt (now c)) \<and>
         last_jump_result (jump_read_frame cfg s c) =
           last_jump_result (detect_jump cfg (reset_gesture (arm_gesture s lms (frame_w c) (frame_h c)) lms
                    (frame_w c) (frame_h c)) lms (frame_w c) (frame_h c) dt (now c)) \<and>
         peak_delta_pixels (jump_read_frame cfg s c) =
           peak_delta_pixels (detect_jump cfg (reset_gesture (arm_gesture s lms (frame_w c) (frame_h c)) lms
                    (frame_w c) (frame_h c)) lms (frame_w c) (frame_h c) dt (now c))"
  using assms
  by (intro exI [of _ "if prev_time s \<noteq> 0 then now c - prev_time s else 0"])
     (simp add: jump_read_frame_def Let_def)



lemma jump_read_frame_baseline:
  "baseline_nose_y (jump_read_frame cfg s c) =
     (if cap_opened c \<and> ret c then
        (case pose_landmarks c of
           None \<Rightarrow> baseline_nose_y s
         | Some lms \<Rightarrow>
             baseline_nose_y (reset_gesture (arm_gesture s lms (frame_w c) (frame_h c)) lms
                                (frame_w c) (frame_h c)))
      else baseline_nose_y s)"
proof (cases "cap_opened c \<and> ret c")
  case False
  then have "jump_read_frame cfg s c = s" by (rule jump_read_frame_no_frame)
  then show ?thesis using False by auto
next
  case True
  show ?thesis
  proof (cases "pose_landmarks c")
    case None
    then show ?thesis using True by (simp add: jump_read_frame_no_pose)
  next
    case (Some lms)
    then show ?thesis
      using True jump_read_frame_pose [of c lms cfg s] by (auto simp: detect_jump_baseline)
  qed
qed

lemma jump_read_frame_landing:
  assumes "state s = airborne" "pose_landmarks c = Some lms" "state (jump_read_frame cfg s c) = landed"
  shows "last_jump_result (jump_read_frame cfg s c) =
           last_jump_result (finalize_jump cfg (jump_read_frame cfg s c) lms (frame_w c) (frame_h c))"
proof (cases "cap_opened c \<and> ret c")
  case False
  then show ?thesis using assms by (simp add: jump_read_frame_no_frame)
next
  case True
  let ?g = "reset_gesture (arm_gesture s lms (frame_w c) (frame_h c)) lms (frame_w c) (frame_h c)"
  have g: "?g = s" using assms(1) by (simp add: gestures_airborne)
  obtain dt where d:
    "state (jump_read_frame cfg s c) = state (detect_jump cfg ?g lms (frame_w c) (frame_h c) dt (now c))"
    "last_jump_result (jump_read_frame cfg s c) =
       last_jump_result (detect_jump cfg ?g lms (frame_w c) (frame_h c) dt (now c))"
    "peak_delta_pixels (jump_read_frame cfg s c) =
       peak_delta_pixels (detect_jump cfg ?g lms (frame_w c) (frame_h c) dt (now c))"
    using jump_read_frame_pose [of c lms cfg s] True assms(2) by blast
  have "last_jump_result (detect_jump cfg s lms (frame_w c) (frame_h c) dt (now c)) =
        last_jump_result (finalize_jump cfg (detect_jump cfg s lms (frame_w c) (frame_h c) dt (now c))
           lms (frame_w c) (frame_h c))"
    using assms(1) assms(3) d(1) g by (intro detect_jump_landing) simp_all
  then show ?thesis using d g by (simp add: finalize_jump_stores)
qed

section \<open>Concrete jump frames\<close>

lemma distance_less: "0 < t \<Longrightarrow> distance p q < t \<longleftrightarrow> (fst p - fst q)\<^sup>2 + (snd p - snd q)\<^sup>2 < t\<^sup>2"
proof -
  assume t: "0 < t"
  have "sqrt ((fst p - fst q)\<^sup>2 + (snd p - snd q)\<^sup>2) < sqrt (t\<^sup>2)
          \<longleftrightarrow> (fst p - fst q)\<^sup>2 + (snd p - snd q)\<^sup>2 < t\<^sup>2"
    by (rule real_sqrt_less_iff)
  then show ?thesis using t by (simp add: distance_def)
qed

lemmas pose_simps = front_view_def arm_pose_def head_lower_def head_high_def ankles_lower_def
  lm_def

lemmas jump_simps = jump_read_frame_def detect_jump_def measure_nose_def phase_step_def
  arm_gesture_def reset_gesture_def reset_state_def is_hand_to_nose_def landmark_xy_def
  distance_less power2_eq_square default_config_def capture_def Let_def

section \<open>A jump in front of the camera\<close>
























lemma just_armed_eq:
  "just_armed =
     \<lparr> state = armed, baseline_nose_y = Some 108, peak_delta_pixels = 0, last_land_time = 0,
       last_jump_result = None, prev_dy = Some 0, airborne_frames = 0, prev_time = 10001 / 10,
       fps = 1, dy_debug = 0, vel_debug = 0, nose_history = [108], steady_frames = 1,
       min_airborne_frames = 6 \<rparr>"
  by (simp add: just_armed_def jump_init_def jump_simps pose_simps)

lemma armed_head_lower_eq:
  "jump_read_frame default_config just_armed (capture (10002 / 10) head_lower) =
     \<lparr> state = armed, baseline_nose_y = Some 108, peak_delta_pixels = 0, last_land_time = 0,
       last_jump_result = None, prev_dy = Some (- 9 / 5), airborne_frames = 0,
       prev_time = 10002 / 10, fps = 19 / 10, dy_debug = - 9 / 5, vel_debug = - 18,
       nose_history = [108, 558 / 5], steady_frames = 2, min_airborne_frames = 6 \<rparr>"
  by (simp add: just_armed_eq jump_simps pose_simps)

lemma no_gesture_head_lower:
  "\<not> is_hand_to_nose head_lower 640 360 RIGHT_INDEX NOSE 60"
  "\<not> is_hand_to_nose head_lower 640 360 LEFT_INDEX NOSE 60"
  by (simp_all add: is_hand_to_nose_def landmark_xy_def distance_less power2_eq_square pose_simps Let_def)

lemma mobile_standing_eq:
  "mobile_standing =
     \<lparr> baseline_y = Some (9 / 10), max_jump_height = 0, jump_count = 0, is_jumping = False,
       current_jump_height = 0, jump_feedback = Some ''Ready to jump'', y_history = [9 / 10] \<rparr>"
  by (simp add: mobile_standing_def jump_process_frame_def jump_mobile_init_def push_def
        deque_append_def window_mean_def pose_simps Let_def)

lemma mobile_ankles_lower:
  "smooth_ankle_y mobile_standing ankles_lower = 91 / 100"
  "current_baseline mobile_standing ankles_lower = 9 / 10"
  "lm_visibility (ankles_lower LEFT_ANKLE) = 1" "lm_visibility (ankles_lower RIGHT_ANKLE) = 1"
  by (simp_all add: smooth_ankle_y_def current_baseline_def mobile_standing_eq push_def
        deque_append_def window_mean_def pose_simps)

lemma jump_process_frame_baseline:
  assumes "lm_visibility (l LEFT_ANKLE) > 7 / 10" "lm_visibility (l RIGHT_ANKLE) > 7 / 10"
  shows "baseline_y (jump_process_frame j (Some l) fh) =
           (if (current_baseline j l - smooth_ankle_y j l) * real_of_int fh > 30
            then Some (current_baseline j l)
            else Some (smooth_ankle_y j l * (1 / 10) + current_baseline j l * (9 / 10)))"
  using assms
  by (cases "baseline_y j")
     (simp_all add: jump_process_frame_def Let_def current_baseline_def smooth_ankle_y_def)

section \<open>The baseline\<close>

text \<open>
  Claim C4, as amended. The camera jump analyzer never drifts its baseline:
  \<open>read_frame\<close> leaves \<open>baseline_nose_y\<close> as it is on every frame while the phase
  is airborne, and on every frame without an ARM or RESET gesture, standing or
  not. The drift with weight 0.1 is in the mobile jump analyzer: on every frame
  with both ankles visible above 0.7, \<open>baseline_y\<close> becomes
  \<open>0.1 * smooth_y + 0.9 * baseline_y\<close> when the jump is at most 30 pixels, and
  stays the baseline when the jump is above 30 pixels.
\<close>

theorem baseline_drift:
  "(state s = airborne \<longrightarrow> baseline_nose_y (jump_read_frame cfg s c) = baseline_nose_y s) \<and>
   (pose_landmarks c = Some lms
      \<and> \<not> is_hand_to_nose lms (frame_w c) (frame_h c) RIGHT_INDEX NOSE 60
      \<and> \<not> is_hand_to_nose lms (frame_w c) (frame_h c) LEFT_INDEX NOSE 60
    \<longrightarrow> baseline_nose_y (jump_read_frame cfg s c) = baseline_nose_y s) \<and>
   (lm_visibility (l LEFT_ANKLE) > 7 / 10 \<and> lm_visibility (l RIGHT_ANKLE) > 7 / 10 \<longrightarrow>
      baseline_y (jump_process_frame j (Some l) fh) =
        (if (current_baseline j l - smooth_ankle_y j l) * real_of_int fh > 30
         then Some (current_baseline j l)
         else Some (smooth_ankle_y j l * (1 / 10) + current_baseline j l * (9 / 10))))"
proof (intro conjI impI)
  show "baseline_nose_y (jump_read_frame cfg s c) = baseline_nose_y s" if "state s = airborne"
    using that by (simp add: jump_read_frame_baseline gestures_airborne split: option.splits)
  show "baseline_nose_y (jump_read_frame cfg s c) = baseline_nose_y s"
    if "pose_landmarks c = Some lms
      \<and> \<not> is_hand_to_nose lms (frame_w c) (frame_h c) RIGHT_INDEX NOSE 60
      \<and> \<not> is_hand_to_nose lms (frame_w c) (frame_h c) LEFT_INDEX NOSE 60"
    using that by (simp add: jump_read_frame_baseline arm_gesture_def reset_gesture_def)
  show "baseline_y (jump_process_frame j (Some l) fh) =
        (if (current_baseline j l - smooth_ankle_y j l) * real_of_int fh > 30
         then Some (current_baseline j l)
         else Some (smooth_ankle_y j l * (1 / 10) + current_baseline j l * (9 / 10)))"
    if "lm_visibility (l LEFT_ANKLE) > 7 / 10 \<and> lm_visibility (l RIGHT_ANKLE) > 7 / 10"
    using that by (simp add: jump_process_frame_baseline)
qed

text \<open>
  The claim as stated fails on the frame after the ARM gesture: armed, the
  smoothed nose height 109.8 is 1.8 pixels below the baseline 108, under the
  takeoff threshold, and the baseline stays 108 instead of moving to 108.18.
\<close>

theorem baseline_drift_counterexample:
  "state just_armed = armed \<and> baseline_nose_y just_armed = Some 108 \<and>
   nose_history (jump_read_frame default_config just_armed (capture (10002 / 10) head_lower))
     = [108, 558 / 5] \<and>
   dy_debug (jump_read_frame default_config just_armed (capture (10002 / 10) head_lower)) = - 9 / 5 \<and>
   state (jump_read_frame default_config just_armed (capture (10002 / 10) head_lower)) = armed \<and>
   baseline_nose_y (jump_read_frame default_config just_armed (capture (10002 / 10) head_lower))
     = Some 108 \<and>
   baseline_nose_y (jump_read_frame default_config just_armed (capture (10002 / 10) head_lower))
     \<noteq> Some (108 * (9 / 10) + (108 + 558 / 5) / 2 * (1 / 10))"
  unfolding armed_head_lower_eq by (simp add: just_armed_eq)

theorem baseline_drift_witness:
  "state in_flight = airborne \<and>
   baseline_nose_y (jump_read_frame default_config in_flight (capture (10011 / 10) arm_pose)) = Some 108 \<and>
   pose_landmarks (capture (10002 / 10) head_lower) = Some head_lower \<and>
   \<not> is_hand_to_nose head_lower 640 360 RIGHT_INDEX NOSE 60 \<and>
   \<not> is_hand_to_nose head_lower 640 360 LEFT_INDEX NOSE 60 \<and>
   baseline_nose_y (jump_read_frame default_config just_armed (capture (10002 / 10) head_lower)) = Some 108 \<and>
   lm_visibility (ankles_lower LEFT_ANKLE) > 7 / 10 \<and> lm_visibility (ankles_lower RIGHT_ANKLE) > 7 / 10 \<and>
   baseline_y mobile_standing = Some (9 / 10) \<and>
   baseline_y (jump_process_frame mobile_standing (Some ankles_lower) 480) = Some (901 / 1000)"
proof -
  have a: "state in_flight = airborne"
    by (simp add: in_flight_def)
  have b: "baseline_nose_y in_flight = Some 108"
    by (simp add: in_flight_def)
  have p: "pose_landmarks (capture (10002 / 10) head_lower) = Some head_lower"
    and wh: "frame_w (capture (10002 / 10) head_lower) = 640"
            "frame_h (capture (10002 / 10) head_lower) = 360"
    by (simp_all add: capture_def)
  have v: "lm_visibility (ankles_lower LEFT_ANKLE) > 7 / 10 \<and>
           lm_visibility (ankles_lower RIGHT_ANKLE) > 7 / 10"
    by (simp add: mobile_ankles_lower)
  have 1: "baseline_nose_y (jump_read_frame default_config in_flight (capture (10011 / 10) arm_pose))
             = Some 108"
    using baseline_drift [THEN conjunct1, rule_format, OF a] b by simp
  have g: "pose_landmarks (capture (10002 / 10) head_lower) = Some head_lower
      \<and> \<not> is_hand_to_nose head_lower (frame_w (capture (10002 / 10) head_lower))
            (frame_h (capture (10002 / 10) head_lower)) RIGHT_INDEX NOSE 60
      \<and> \<not> is_hand_to_nose head_lower (frame_w (capture (10002 / 10) head_lower))
            (frame_h (capture (10002 / 10) head_lower)) LEFT_INDEX NOSE 60"
    using p no_gesture_head_lower by (simp only: wh simp_thms)
  have 2: "baseline_nose_y (jump_read_frame default_config just_armed (capture (10002 / 10) head_lower))
             = Some 108"
    using baseline_drift [THEN conjunct2, THEN conjunct1, THEN mp, OF g, of default_config just_armed]
    by (simp add: just_armed_eq)
  have 3: "baseline_y (jump_process_frame mobile_standing (Some ankles_lower) 480) = Some (901 / 1000)"
    using baseline_drift [THEN conjunct2, THEN conjunct2, rule_format, OF v, of mobile_standing 480]
    by (simp add: mobile_ankles_lower)
  show ?thesis
    using a p no_gesture_head_lower v 1 2 3 by (simp add: mobile_standing_eq)
qed

section \<open>What holds in every reachable state of the mobile squat analyzer\<close>

lemma calculate_angle_range: "0 \<le> calculate_angle a b c \<and> calculate_angle a b c \<le> 180"
proof -
  define r where "r = arctan2 (lm_y c - lm_y b) (lm_x c - lm_x b)
                    - arctan2 (lm_y a - lm_y b) (lm_x a - lm_x b)"
  have "- (2 * pi) < r" "r < 2 * pi"
    using Arg_bounded [of "Complex (lm_x c - lm_x b) (lm_y c - lm_y b)"]
          Arg_bounded [of "Complex (lm_x a - lm_x b) (lm_y a - lm_y b)"]
    by (simp_all add: r_def arctan2_def)
  then have "\<bar>r\<bar> < 2 * pi" by simp
  then have "\<bar>r\<bar> * 180 / pi < 360"
    by (simp add: field_simps)
  then have "\<bar>r * 180 / pi\<bar> < 360" by (simp add: abs_mult)
  then show ?thesis
    unfolding calculate_angle_def Let_def r_def [symmetric] by auto
qed

lemma push_length: "length h \<le> 5 \<Longrightarrow> length (push h v) = min 5 (length h + 1)"
  by (simp add: push_def deque_append_def)

lemma push_range:
  "list_all (\<lambda>x. 0 \<le> x \<and> x \<le> 180) h \<Longrightarrow> 0 \<le> v \<Longrightarrow> v \<le> 180 \<Longrightarrow>
   list_all (\<lambda>x. 0 \<le> x \<and> x \<le> 180) (push h v)"
  by (auto simp: push_def deque_append_def list_all_iff dest: in_set_dropD)

lemma classify_stage_cases:
  "classify_stage k prev = Some (if k > 160 then S1 else if k > 95 then S2 else S3)"
  by (simp add: classify_stage_def STAGE_S1_THRESHOLD_def STAGE_S2_THRESHOLD_def)

lemma squat_inv_init: "squat_inv squat_mobile_init"
  by (simp add: squat_inv_def squat_mobile_init_def)

lemma squat_inv_reset: "squat_inv (squat_reset s)"
  by (simp add: squat_inv_def squat_reset_def)

lemma squat_inv_feedback: "squat_inv (s\<lparr> feedback := f \<rparr>) = squat_inv s"
  by (simp add: squat_inv_def)

lemma track_frame_eq:
  "track_frame s a b c d =
     (window_mean (push (knee_history s) (calculate_angle b c d)),
      window_mean (push (back_history s) (calculate_angle a b c)),
      s\<lparr> knee_history := push (knee_history s) (calculate_angle b c d),
         back_history := push (back_history s) (calculate_angle a b c),
         min_knee_angle := min (min_knee_angle s) (window_mean (push (knee_history s) (calculate_angle b c d))),
         stage := classify_stage (window_mean (push (knee_history s) (calculate_angle b c d))) (stage s),
         sequence := (if stage s \<noteq> classify_stage (window_mean (push (knee_history s) (calculate_angle b c d))) (stage s)
                      then sequence s @ [the (classify_stage (window_mean (push (knee_history s) (calculate_angle b c d))) (stage s))]
                      else sequence s),
         depth_hold := (if classify_stage (window_mean (push (knee_history s) (calculate_angle b c d))) (stage s) = Some S3
                        then depth_hold s + 1 else depth_hold s) \<rparr>)"
  by (simp add: track_frame_def Let_def classify_stage_cases)

lemma squat_inv_track:
  assumes "squat_inv s" "track_frame s a b c d = (k, bk, s1)"
  shows "squat_inv s1"
proof -
  let ?v = "calculate_angle b c d"
  let ?kh = "push (knee_history s) ?v"
  let ?k = "window_mean ?kh"
  let ?st = "classify_stage ?k (stage s)"
  have inv: "sequence s \<noteq> [] \<longrightarrow> stage s = Some (last (sequence s))"
    "list_all (\<lambda>v. 0 \<le> v \<and> v \<le> 180) (knee_history s)"
    "length (knee_history s) \<le> 5" "0 \<le> depth_hold s"
    "min 5 (length (filter (\<lambda>x. x \<noteq> S3) (sequence s)) + nat (depth_hold s)) \<le> length (knee_history s)"
    using assms(1) by (simp_all add: squat_inv_def)
  have s1: "sequence s1 = (if stage s \<noteq> ?st then sequence s @ [the ?st] else sequence s)"
    "stage s1 = ?st" "knee_history s1 = ?kh"
    "depth_hold s1 = (if ?st = Some S3 then depth_hold s + 1 else depth_hold s)"
    using assms(2) by (auto simp: track_frame_eq)
  have 1: "sequence s1 \<noteq> [] \<longrightarrow> stage s1 = Some (last (sequence s1))"
    using inv(1) by (auto simp: s1 classify_stage_cases)
  have 2: "stage s1 = Some S3 \<longrightarrow> knee_history s1 \<noteq> [] \<and> window_mean (knee_history s1) \<le> 95"
    by (simp add: s1 classify_stage_cases push_nonempty)
  have 3: "list_all (\<lambda>v. 0 \<le> v \<and> v \<le> 180) (knee_history s1)"
    using inv(2) calculate_angle_range [of b c d] by (simp add: s1 push_range)
  have 4: "length (knee_history s1) \<le> 5"
    using inv(3) by (simp add: s1 push_length_le)
  have 5: "0 \<le> depth_hold s1"
    using inv(4) by (simp add: s1)
  have len: "length (knee_history s1) = min 5 (length (knee_history s) + 1)"
    using inv(3) by (simp add: s1 push_length)
  have cnt: "length (filter (\<lambda>x. x \<noteq> S3) (sequence s1)) + nat (depth_hold s1)
             \<le> length (filter (\<lambda>x. x \<noteq> S3) (sequence s)) + nat (depth_hold s) + 1"
    using inv(4) by (auto simp: s1 classify_stage_cases)
  have 6: "min 5 (length (filter (\<lambda>x. x \<noteq> S3) (sequence s1)) + nat (depth_hold s1))
             \<le> length (knee_history s1)"
    using cnt inv(5) len by linarith
  show ?thesis
    using 1 2 3 4 5 6 by (simp add: squat_inv_def)
qed


lemma squat_inv_cleared:
  assumes "squat_inv s"
  shows "squat_inv (s\<lparr> sequence := [], depth_hold := 0 \<rparr>)"
    "squat_inv (s\<lparr> incorrect_counter := n, sequence := [], depth_hold := 0 \<rparr>)"
    "squat_inv (count_correct s)"
  using assms by (simp_all add: squat_inv_def count_correct_def)

lemma squat_inv_resolve:
  assumes "squat_inv s1" "resolve_rep_mobile k s1 = (fb, s2)"
  shows "squat_inv s2"
proof -
  have "s2 = s1 \<or> s2 = s1\<lparr> sequence := [], depth_hold := 0 \<rparr>
        \<or> s2 = s1\<lparr> incorrect_counter := incorrect_counter s1 + 1, sequence := [], depth_hold := 0 \<rparr>
        \<or> s2 = count_correct s1"
    using assms(2) by (auto simp: resolve_rep_mobile_def split: if_splits)
  then show ?thesis
    using assms(1) squat_inv_cleared [OF assms(1)] by auto
qed

lemma squat_inv_frame: "squat_inv s \<Longrightarrow> squat_inv (process_frame s pose)"
proof (cases pose)
  case None
  assume "squat_inv s"
  then show ?thesis using None by (simp add: process_frame_def squat_inv_feedback)
next
  case (Some lms)
  assume inv: "squat_inv s"
  show ?thesis
  proof (cases "fully_visible lms")
    case False
    then show ?thesis using inv Some by (simp add: process_frame_hidden squat_inv_feedback)
  next
    case True
    then obtain k bk s1 fb s2 where
      t: "track_frame s (get_landmark lms LEFT_SHOULDER) (get_landmark lms LEFT_HIP)
            (get_landmark lms LEFT_KNEE) (get_landmark lms LEFT_ANKLE) = (k, bk, s1)"
      and r: "resolve_rep_mobile k s1 = (fb, s2)"
      and p: "process_frame s (Some lms) =
                s2\<lparr> feedback := form_feedback k bk (stage s2) (min_knee_angle s2)
                          (get_landmark lms LEFT_ANKLE) (get_landmark lms LEFT_KNEE) fb \<rparr>"
      by (rule process_frame_visible)
    have "squat_inv s2"
      using squat_inv_track [OF inv t] r by (rule squat_inv_resolve)
    then show ?thesis by (simp add: Some p squat_inv_feedback)
  qed
qed

lemma reachable_squat_inv: "reachable s \<Longrightarrow> squat_inv s"
  by (induction rule: reachable.induct) (simp_all add: squat_inv_init squat_inv_frame squat_inv_reset)

lemma reachable_replay: "reachable s \<Longrightarrow> reachable (replay s frames)"
proof (induction frames arbitrary: s)
  case Nil
  then show ?case by (simp add: replay_def)
next
  case (Cons f frames)
  have "reachable (process_frame s (Some f))"
    using Cons.prems by (rule reachable_frame)
  then have "reachable (replay (process_frame s (Some f)) frames)"
    by (rule Cons.IH)
  then show ?case by (simp add: replay_def)
qed

lemma last_three_append:
  assumes "last_three xs = [a, b, c]"
  shows "\<exists>pre. xs = pre @ [a, b, c]"
proof -
  have "xs = take (length xs - 3) xs @ drop (length xs - 3) xs" by simp
  then show ?thesis using assms unfolding last_three_def by metis
qed

lemma last_three_snoc: "last_three (pre @ [a, b, c] @ [d]) = [b, c, d]"
  by (simp add: last_three_def)

text \<open>At the bottom with three frames of hold, the knee window is full and its mean is at most 95.\<close>

lemma bottom_window:
  assumes "squat_inv s" "last_three (sequence s) = [S1, S2, S3]" "depth_hold s \<ge> 3"
  shows "stage s = Some S3" "length (knee_history s) = 5" "window_mean (knee_history s) \<le> 95"
    "list_all (\<lambda>v. 0 \<le> v \<and> v \<le> 180) (knee_history s)"
proof -
  obtain pre where seq: "sequence s = pre @ [S1, S2, S3]"
    using last_three_append [OF assms(2)] by blast
  show st: "stage s = Some S3"
    using assms(1) seq by (simp add: squat_inv_def)
  show "window_mean (knee_history s) \<le> 95"
    using assms(1) st by (simp add: squat_inv_def)
  show "list_all (\<lambda>v. 0 \<le> v \<and> v \<le> 180) (knee_history s)"
    using assms(1) by (simp add: squat_inv_def)
  have "2 \<le> length (filter (\<lambda>x. x \<noteq> S3) (sequence s))"
    by (simp add: seq)
  moreover have "3 \<le> nat (depth_hold s)"
    using assms(3) by simp
  moreover have "min 5 (length (filter (\<lambda>x. x \<noteq> S3) (sequence s)) + nat (depth_hold s))
                   \<le> length (knee_history s)" "length (knee_history s) \<le> 5"
    using assms(1) by (simp_all add: squat_inv_def)
  ultimately show "length (knee_history s) = 5" by linarith
qed

text \<open>One more angle moves the mean of a full window with mean at most 95 to at most 131.\<close>

lemma rise_bounded:
  assumes "length h = 5" "window_mean h \<le> 95" "list_all (\<lambda>v. 0 \<le> v \<and> v \<le> 180) h"
    "v \<le> 180"
  shows "window_mean (push h v) \<le> 131"
proof -
  obtain a b c d e where h: "h = [a, b, c, d, e]"
    using assms(1) by (auto simp: length_Suc_conv eval_nat_numeral)
  have "a + b + c + d + e \<le> 475" "0 \<le> a"
    using assms(2,3) by (simp_all add: h window_mean_def)
  then show ?thesis
    using assms(4) by (simp add: h push_def deque_append_def window_mean_def)
qed


section \<open>The correct squat\<close>

lemma form_feedback_rising:
  assumes "k > 100"
  shows "form_feedback k bk (Some S2) m ankle knee fb \<in>
           {Some ''Bend forward'', Some ''Bend backwards'', Some ''Lower your hips'',
            Some ''Knees over toes''}"
  using assms by (simp add: form_feedback_def Let_def)

text \<open>
  The frame that rises from the bottom, in a reachable state: what it does to the
  counters, the sequence, the minimum, the depth hold and the feedback.
\<close>

lemma rise_counts:
  assumes "reachable s" "last_three (sequence s) = [S1, S2, S3]" "depth_hold s \<ge> 3"
    "fully_visible lms" "smoothed_knee_angle s lms > 100"
  shows "correct_counter (process_frame s (Some lms)) = correct_counter s + 1 \<and>
         incorrect_counter (process_frame s (Some lms)) = incorrect_counter s \<and>
         sequence (process_frame s (Some lms)) = [] \<and>
         min_knee_angle (process_frame s (Some lms)) = 180 \<and>
         depth_hold (process_frame s (Some lms)) = 0 \<and>
         fst (resolve_rep_mobile (smoothed_knee_angle s lms)
                (snd (snd (track_frame s (get_landmark lms LEFT_SHOULDER)
                   (get_landmark lms LEFT_HIP) (get_landmark lms LEFT_KNEE)
                   (get_landmark lms LEFT_ANKLE))))) = Some ''Correct Squat'' \<and>
         feedback (process_frame s (Some lms)) \<in>
           {Some ''Bend forward'', Some ''Bend backwards'', Some ''Lower your hips'',
            Some ''Knees over toes''} \<and>
         feedback (process_frame s (Some lms)) \<noteq> Some ''Correct Squat''"
proof -
  let ?shoulder = "get_landmark lms LEFT_SHOULDER" and ?hip = "get_landmark lms LEFT_HIP"
  let ?knee = "get_landmark lms LEFT_KNEE" and ?ankle = "get_landmark lms LEFT_ANKLE"
  have inv: "squat_inv s" using assms(1) by (rule reachable_squat_inv)
  note bottom = bottom_window [OF inv assms(2) assms(3)]
  obtain pre where seq: "sequence s = pre @ [S1, S2, S3]"
    using last_three_append [OF assms(2)] by blast
  obtain k bk s1 fb s2 where
    t: "track_frame s ?shoulder ?hip ?knee ?ankle = (k, bk, s1)"
    and r: "resolve_rep_mobile k s1 = (fb, s2)"
    and p: "process_frame s (Some lms) =
              s2\<lparr> feedback := form_feedback k bk (stage s2) (min_knee_angle s2) ?ankle ?knee fb \<rparr>"
    using assms(4) by (rule process_frame_visible)
  have k: "k = smoothed_knee_angle s lms"
    using track_frame_fields [OF t] by (simp add: smoothed_knee_angle_def)
  have "k \<le> 131"
    unfolding k smoothed_knee_angle_def
    using bottom(2) bottom(3) bottom(4) calculate_angle_range [of ?hip ?knee ?ankle]
    by (intro rise_bounded) simp_all
  then have stage: "classify_stage k (stage s) = Some S2"
    using assms(5) k by (simp add: classify_stage_cases)
  have s1: "stage s1 = Some S2" "sequence s1 = pre @ [S1, S2, S3] @ [S2]"
    "depth_hold s1 = depth_hold s" "correct_counter s1 = correct_counter s"
    "incorrect_counter s1 = incorrect_counter s"
    using t stage bottom(1) seq
    by (auto simp: track_frame_eq k smoothed_knee_angle_def)
  have l3: "last_three (sequence s1) = [S2, S3, S2]"
    unfolding s1(2) by (rule last_three_snoc)
  have "resolve_rep_mobile k s1 = (Some ''Correct Squat'', count_correct s1)"
    using l3 assms(3) by (simp add: resolve_rep_mobile_def s1)
  then have s2: "s2 = count_correct s1" "fb = Some ''Correct Squat''"
    using r by simp_all
  have fields: "correct_counter s2 = correct_counter s + 1" "incorrect_counter s2 = incorrect_counter s"
    "sequence s2 = []" "min_knee_angle s2 = 180" "depth_hold s2 = 0" "stage s2 = Some S2"
    by (simp_all add: s2 count_correct_def s1)
  have fbk: "feedback (process_frame s (Some lms)) \<in>
           {Some ''Bend forward'', Some ''Bend backwards'', Some ''Lower your hips'',
            Some ''Knees over toes''}"
    using form_feedback_rising [of k bk "min_knee_angle s2" ?ankle ?knee fb] assms(5) k
    by (simp add: p fields)
  then have ne: "feedback (process_frame s (Some lms)) \<noteq> Some ''Correct Squat''"
    by auto
  have local: "fst (resolve_rep_mobile (smoothed_knee_angle s lms)
                (snd (snd (track_frame s ?shoulder ?hip ?knee ?ankle)))) = Some ''Correct Squat''"
    using r s2(2) by (simp add: t k [symmetric])
  show ?thesis
    using fields local fbk ne by (simp add: p)
qed

text \<open>
  In a reachable state the recorded sequence ends with the stage of the current
  frame, so when it ends with S1, S2, S3 the smoothed knee angle is at most 95:
  the test \<open>knee_angle > 100\<close> inside the first branch of the rep resolution
  never holds there.
\<close>

lemma first_branch_never_counts:
  assumes "reachable s" "track_frame s a b c d = (k, bk, s1)" "last_three (sequence s1) = [S1, S2, S3]"
  shows "k \<le> 95"
proof -
  have inv: "squat_inv s1"
    using reachable_squat_inv [OF assms(1)] assms(2) by (rule squat_inv_track)
  obtain pre where "sequence s1 = pre @ [S1, S2, S3]"
    using last_three_append [OF assms(3)] by blast
  then have "stage s1 = Some S3"
    using inv by (simp add: squat_inv_def)
  then have "window_mean (knee_history s1) \<le> 95"
    using inv by (simp add: squat_inv_def)
  moreover have "k = window_mean (knee_history s1)"
    using assms(2) by (auto simp: track_frame_eq)
  ultimately show ?thesis by simp
qed

lemma reachable_at_bottom: "reachable at_bottom"
  unfolding at_bottom_def by (rule reachable_replay) (rule reachable_init)

lemma rise_knee_angle: "smoothed_knee_angle at_bottom standing = 108"
  by (simp add: smoothed_knee_angle_def at_bottom_eq knee_standing push_def deque_append_def
        window_mean_def)

lemma visible_standing: "fully_visible standing"
  unfolding standing_def by (rule visible_side_view)

lemma process_frame_counters:
  "correct_counter s \<le> correct_counter (process_frame s pose) \<and>
   incorrect_counter s \<le> incorrect_counter (process_frame s pose)"
proof (cases pose)
  case None
  then show ?thesis by (simp add: process_frame_def)
next
  case (Some lms)
  show ?thesis
  proof (cases "fully_visible lms")
    case False
    then show ?thesis using Some by (simp add: process_frame_hidden)
  next
    case True
    then obtain k bk s1 fb s2 where
      t: "track_frame s (get_landmark lms LEFT_SHOULDER) (get_landmark lms LEFT_HIP)
            (get_landmark lms LEFT_KNEE) (get_landmark lms LEFT_ANKLE) = (k, bk, s1)"
      and r: "resolve_rep_mobile k s1 = (fb, s2)"
      and p: "process_frame s (Some lms) =
                s2\<lparr> feedback := form_feedback k bk (stage s2) (min_knee_angle s2)
                          (get_landmark lms LEFT_ANKLE) (get_landmark lms LEFT_KNEE) fb \<rparr>"
      by (rule process_frame_visible)
    show ?thesis
      using track_frame_fields [OF t] resolve_rep_mobile_counters [OF r]
      by (simp add: Some p)
  qed
qed

lemma replay_append: "replay s (xs @ ys) = replay (replay s xs) ys"
  by (simp add: replay_def)

lemma replay_Cons: "replay s (f # fs) = replay (process_frame s (Some f)) fs"
  by (simp add: replay_def)

lemma replay_correct_mono: "correct_counter s \<le> correct_counter (replay s fs)"
proof (induction fs arbitrary: s)
  case Nil
  show ?case by (simp add: replay_def)
next
  case (Cons f fs)
  have "correct_counter s \<le> correct_counter (process_frame s (Some f))"
    using process_frame_counters [of s "Some f"] by simp
  also have "\<dots> \<le> correct_counter (replay (process_frame s (Some f)) fs)"
    by (rule Cons.IH)
  finally show ?case by (simp add: replay_Cons)
qed

lemma resolve_rep_mobile_stage:
  "resolve_rep_mobile k s = (fb, s') \<Longrightarrow> stage s' = stage s"
  by (auto simp: resolve_rep_mobile_def count_correct_def split: if_splits)

lemma track_frame_parts:
  assumes "track_frame s a b c d = (k, bk, s1)"
  shows "stage s1 = classify_stage k (stage s)"
    "sequence s1 = (if stage s \<noteq> classify_stage k (stage s)
                    then sequence s @ [the (classify_stage k (stage s))] else sequence s)"
    "depth_hold s1 = (if classify_stage k (stage s) = Some S3 then depth_hold s + 1 else depth_hold s)"
    "correct_counter s1 = correct_counter s"
  using assms by (auto simp: track_frame_eq)

text \<open>A frame on the way down: no branch of the rep resolution fires.\<close>

lemma quiet_frame:
  assumes vis: "fully_visible f" and st: "stage (process_frame s (Some f)) = Some X"
    and seq: "seq = (if stage s \<noteq> Some X then sequence s @ [X] else sequence s)"
    and q: "length seq < 3 \<or> (last_three seq = [S1, S2, S3] \<and> X = S3)"
  shows "sequence (process_frame s (Some f)) = seq"
    and "depth_hold (process_frame s (Some f)) = (if X = S3 then depth_hold s + 1 else depth_hold s)"
    and "correct_counter (process_frame s (Some f)) = correct_counter s"
proof -
  obtain k bk s1 fb s2 where
    t: "track_frame s (get_landmark f LEFT_SHOULDER) (get_landmark f LEFT_HIP)
          (get_landmark f LEFT_KNEE) (get_landmark f LEFT_ANKLE) = (k, bk, s1)"
    and r: "resolve_rep_mobile k s1 = (fb, s2)"
    and p: "process_frame s (Some f) =
              s2\<lparr> feedback := form_feedback k bk (stage s2) (min_knee_angle s2)
                        (get_landmark f LEFT_ANKLE) (get_landmark f LEFT_KNEE) fb \<rparr>"
    using vis by (rule process_frame_visible)
  note parts = track_frame_parts [OF t]
  have "stage s1 = Some X"
    using st resolve_rep_mobile_stage [OF r] by (simp add: p)
  then have cl: "classify_stage k (stage s) = Some X"
    using parts(1) by simp
  have s1: "sequence s1 = seq" "depth_hold s1 = (if X = S3 then depth_hold s + 1 else depth_hold s)"
    "correct_counter s1 = correct_counter s"
    unfolding parts cl seq by simp_all
  have "Some X = Some (if k > 160 then S1 else if k > 95 then S2 else S3)"
    using cl classify_stage_cases [of k "stage s"] by simp
  then have low: "X = S3 \<Longrightarrow> \<not> k > 100"
    by (cases "k > 160"; cases "k > 95") simp_all
  have "resolve_rep_mobile k s1 = (None, s1)"
    using q
  proof
    assume "length seq < 3"
    then show ?thesis by (simp add: resolve_rep_mobile_def s1)
  next
    assume a: "last_three seq = [S1, S2, S3] \<and> X = S3"
    have l3: "last_three (sequence s1) = [S1, S2, S3]"
      using a by (simp add: s1)
    obtain pre where pre: "sequence s1 = pre @ [S1, S2, S3]"
      using last_three_append [OF l3] by (rule exE)
    have ls: "last (sequence s1) = S3"
      by (simp add: pre)
    have nk: "\<not> k > 100"
      using a low by simp
    show ?thesis
      by (simp add: resolve_rep_mobile_def l3 ls nk)
  qed
  then have "s2 = s1" using r by simp
  then show "sequence (process_frame s (Some f)) = seq"
    and "depth_hold (process_frame s (Some f)) = (if X = S3 then depth_hold s + 1 else depth_hold s)"
    and "correct_counter (process_frame s (Some f)) = correct_counter s"
    by (simp_all add: p s1)
qed

lemma stand_phase:
  assumes "hold_stage S1 s xs"
    "(stage s = None \<and> sequence s = []) \<or> (stage s = Some S1 \<and> sequence s = [S1])"
  shows "correct_counter (replay s xs) = correct_counter s \<and>
         depth_hold (replay s xs) = depth_hold s \<and>
         (xs \<noteq> [] \<longrightarrow> stage (replay s xs) = Some S1 \<and> sequence (replay s xs) = [S1])"
  using assms
proof (induction xs arbitrary: s)
  case Nil
  then show ?case by (simp add: replay_def)
next
  case (Cons f xs)
  let ?u = "process_frame s (Some f)"
  have vis: "fully_visible f" and st: "stage ?u = Some S1" and rest: "hold_stage S1 ?u xs"
    using Cons.prems(1) by simp_all
  have seq: "[S1] = (if stage s \<noteq> Some S1 then sequence s @ [S1] else sequence s)"
    using Cons.prems(2) by auto
  have step: "sequence ?u = [S1]" "depth_hold ?u = depth_hold s" "correct_counter ?u = correct_counter s"
    using quiet_frame [OF vis st seq] by simp_all
  have "(stage ?u = None \<and> sequence ?u = []) \<or> (stage ?u = Some S1 \<and> sequence ?u = [S1])"
    using st step by simp
  from Cons.IH [OF rest this] show ?case
    using st step by (cases xs) (simp_all add: replay_Cons replay_def)
qed

lemma lowering_phase:
  assumes "hold_stage S2 s ys"
    "(stage s = Some S1 \<and> sequence s = [S1]) \<or> (stage s = Some S2 \<and> sequence s = [S1, S2])"
  shows "correct_counter (replay s ys) = correct_counter s \<and>
         depth_hold (replay s ys) = depth_hold s \<and>
         (ys \<noteq> [] \<longrightarrow> stage (replay s ys) = Some S2 \<and> sequence (replay s ys) = [S1, S2])"
  using assms
proof (induction ys arbitrary: s)
  case Nil
  then show ?case by (simp add: replay_def)
next
  case (Cons f ys)
  let ?u = "process_frame s (Some f)"
  have vis: "fully_visible f" and st: "stage ?u = Some S2" and rest: "hold_stage S2 ?u ys"
    using Cons.prems(1) by simp_all
  have seq: "[S1, S2] = (if stage s \<noteq> Some S2 then sequence s @ [S2] else sequence s)"
    using Cons.prems(2) by auto
  have step: "sequence ?u = [S1, S2]" "depth_hold ?u = depth_hold s"
    "correct_counter ?u = correct_counter s"
    using quiet_frame [OF vis st seq] by simp_all
  have "(stage ?u = Some S1 \<and> sequence ?u = [S1]) \<or> (stage ?u = Some S2 \<and> sequence ?u = [S1, S2])"
    using st step by simp
  from Cons.IH [OF rest this] show ?case
    using st step by (cases ys) (simp_all add: replay_Cons replay_def)
qed

lemma bottom_phase:
  assumes "hold_stage S3 s zs"
    "(stage s = Some S2 \<and> sequence s = [S1, S2]) \<or> (stage s = Some S3 \<and> sequence s = [S1, S2, S3])"
  shows "correct_counter (replay s zs) = correct_counter s \<and>
         depth_hold (replay s zs) = depth_hold s + int (length zs) \<and>
         (zs \<noteq> [] \<longrightarrow> stage (replay s zs) = Some S3 \<and> sequence (replay s zs) = [S1, S2, S3])"
  using assms
proof (induction zs arbitrary: s)
  case Nil
  then show ?case by (simp add: replay_def)
next
  case (Cons f zs)
  let ?u = "process_frame s (Some f)"
  have vis: "fully_visible f" and st: "stage ?u = Some S3" and rest: "hold_stage S3 ?u zs"
    using Cons.prems(1) by simp_all
  have seq: "[S1, S2, S3] = (if stage s \<noteq> Some S3 then sequence s @ [S3] else sequence s)"
    using Cons.prems(2) by auto
  have step: "sequence ?u = [S1, S2, S3]" "depth_hold ?u = depth_hold s + 1"
    "correct_counter ?u = correct_counter s"
    using quiet_frame [OF vis st seq] by (simp_all add: last_three_def)
  have "(stage ?u = Some S2 \<and> sequence ?u = [S1, S2]) \<or>
        (stage ?u = Some S3 \<and> sequence ?u = [S1, S2, S3])"
    using st step by simp
  from Cons.IH [OF rest this] show ?case
    using st step by (cases zs) (simp_all add: replay_Cons replay_def)
qed


text \<open>
  A frame that counts a correct squat in a reachable state ends at stage S2 and
  finds a depth hold of at least 3.
\<close>

lemma counting_frame:
  assumes "reachable t" "correct_counter (process_frame t pose) \<noteq> correct_counter t"
  shows "stage (process_frame t pose) = Some S2 \<and> depth_hold t \<ge> 3"
proof (cases pose)
  case None
  then show ?thesis using assms(2) by (simp add: process_frame_def)
next
  case (Some lms)
  show ?thesis
  proof (cases "fully_visible lms")
    case False
    then show ?thesis using assms(2) Some by (simp add: process_frame_hidden)
  next
    case True
    then obtain k bk s1 fb s2 where
      t: "track_frame t (get_landmark lms LEFT_SHOULDER) (get_landmark lms LEFT_HIP)
            (get_landmark lms LEFT_KNEE) (get_landmark lms LEFT_ANKLE) = (k, bk, s1)"
      and r: "resolve_rep_mobile k s1 = (fb, s2)"
      and p: "process_frame t (Some lms) =
                s2\<lparr> feedback := form_feedback k bk (stage s2) (min_knee_angle s2)
                          (get_landmark lms LEFT_ANKLE) (get_landmark lms LEFT_KNEE) fb \<rparr>"
      by (rule process_frame_visible)
    note parts = track_frame_parts [OF t]
    have inv1: "squat_inv s1"
      using reachable_squat_inv [OF assms(1)] t by (rule squat_inv_track)
    have changed: "correct_counter s2 \<noteq> correct_counter s1"
      using assms(2) parts(4) by (simp add: Some p)
    have first: "\<not> (last_three (sequence s1) = [S1, S2, S3] \<and> k > 100)"
      using first_branch_never_counts [OF assms(1) t] by auto
    have second: "last_three (sequence s1) = [S2, S3, S2] \<and> depth_hold s1 \<ge> 3"
    proof (rule ccontr)
      assume n: "\<not> (last_three (sequence s1) = [S2, S3, S2] \<and> depth_hold s1 \<ge> 3)"
      have "correct_counter (snd (resolve_rep_mobile k s1)) = correct_counter s1"
        using first n by (auto simp: resolve_rep_mobile_def)
      then show False using changed r by simp
    qed
    obtain pre where "sequence s1 = pre @ [S2, S3, S2]"
      using last_three_append [OF second [THEN conjunct1]] by (rule exE)
    then have st1: "stage s1 = Some S2"
      using inv1 by (simp add: squat_inv_def)
    then have "classify_stage k (stage t) = Some S2"
      using parts(1) by simp
    then have "depth_hold s1 = depth_hold t"
      using parts(3) by simp
    then have "depth_hold t \<ge> 3" using second by simp
    moreover have "stage (process_frame t (Some lms)) = Some S2"
      using st1 resolve_rep_mobile_stage [OF r] by (simp add: p)
    ultimately show ?thesis using Some by simp
  qed
qed

text \<open>The replay: standing, lowering, at least three frames at the bottom.\<close>

lemma descent:
  assumes "xs \<noteq> []" "hold_stage S1 squat_mobile_init xs"
    "ys \<noteq> []" "hold_stage S2 (replay squat_mobile_init xs) ys"
    "length zs \<ge> 3" "hold_stage S3 (replay squat_mobile_init (xs @ ys)) zs"
  shows "correct_counter (replay squat_mobile_init (xs @ ys @ zs)) = 0"
    "last_three (sequence (replay squat_mobile_init (xs @ ys @ zs))) = [S1, S2, S3]"
    "depth_hold (replay squat_mobile_init (xs @ ys @ zs)) \<ge> 3"
proof -
  let ?a = "replay squat_mobile_init xs"
  let ?b = "replay ?a ys"
  let ?c = "replay ?b zs"
  have a: "correct_counter ?a = 0" "depth_hold ?a = 0" "stage ?a = Some S1" "sequence ?a = [S1]"
    using stand_phase [OF assms(2)] assms(1) by (simp_all add: squat_mobile_init_def)
  have b: "correct_counter ?b = 0" "depth_hold ?b = 0" "stage ?b = Some S2" "sequence ?b = [S1, S2]"
    using lowering_phase [OF assms(4)] assms(3) a by simp_all
  have zs: "zs \<noteq> []" using assms(5) by auto
  have "hold_stage S3 ?b zs"
    using assms(6) by (simp add: replay_append)
  then have c: "correct_counter ?c = 0" "depth_hold ?c = int (length zs)"
    "sequence ?c = [S1, S2, S3]"
    using bottom_phase [of ?b zs] zs b by simp_all
  have eq: "replay squat_mobile_init (xs @ ys @ zs) = ?c"
    by (simp add: replay_append)
  show "correct_counter (replay squat_mobile_init (xs @ ys @ zs)) = 0"
    "last_three (sequence (replay squat_mobile_init (xs @ ys @ zs))) = [S1, S2, S3]"
    "depth_hold (replay squat_mobile_init (xs @ ys @ zs)) \<ge> 3"
    using c assms(5) by (simp_all add: eq last_three_def)
qed

lemma replay_prefix_uncounted:
  assumes "correct_counter (replay squat_mobile_init fs) = 0"
  shows "correct_counter (replay squat_mobile_init (take n fs)) = 0"
proof -
  have "replay squat_mobile_init fs = replay (replay squat_mobile_init (take n fs)) (drop n fs)"
    using replay_append [of squat_mobile_init "take n fs" "drop n fs"] by simp
  then have "correct_counter (replay squat_mobile_init (take n fs)) \<le> 0"
    using replay_correct_mono [of "replay squat_mobile_init (take n fs)" "drop n fs"] assms by simp
  moreover have "0 \<le> correct_counter (replay squat_mobile_init (take n fs))"
    using replay_correct_mono [of squat_mobile_init "take n fs"] by (simp add: squat_mobile_init_def)
  ultimately show ?thesis by simp
qed


lemma visible_bent: "fully_visible bent"
  unfolding bent_def by (rule visible_side_view)

lemma squat_down_parts: "squat_down = stand_frames @ lowering_frames @ bottom_frames"
  by (simp add: squat_down_def stand_frames_def lowering_frames_def bottom_frames_def)

lemma hold_stand: "hold_stage S1 squat_mobile_init stand_frames"
  by (simp add: stand_frames_def squat_mobile_init_def visible_standing frame_simps ankle_standing)

lemma after_stand_eq:
  "replay squat_mobile_init stand_frames =
     \<lparr> correct_counter = 0, incorrect_counter = 0, stage = Some S1, sequence = [S1],
       feedback = Some ''Bend backwards'', knee_history = [180], back_history = [180],
       depth_hold = 0, min_knee_angle = 180 \<rparr>"
  by (simp add: replay_def stand_frames_def squat_mobile_init_def frame_simps ankle_standing)

lemma hold_lowering: "hold_stage S2 (replay squat_mobile_init stand_frames) lowering_frames"
  by (simp add: after_stand_eq lowering_frames_def visible_bent frame_simps ankle_standing)

lemma after_lowering_eq:
  "replay squat_mobile_init (stand_frames @ lowering_frames) =
     \<lparr> correct_counter = 0, incorrect_counter = 0, stage = Some S2, sequence = [S1, S2],
       feedback = Some ''Bend backwards'', knee_history = [180, 90, 90, 90, 90],
       back_history = [180, 180, 180, 180, 180], depth_hold = 0, min_knee_angle = 108 \<rparr>"
  by (simp add: replay_def stand_frames_def lowering_frames_def squat_mobile_init_def
        frame_simps ankle_standing)

lemma hold_bottom:
  "hold_stage S3 (replay squat_mobile_init (stand_frames @ lowering_frames)) bottom_frames"
  by (simp add: after_lowering_eq bottom_frames_def visible_bent frame_simps ankle_standing)

text \<open>
  Claim C1, as amended. In the mobile squat analyzer, on any frame (all four
  landmarks visible) where the last three recorded stages are S1, S2, S3, the
  depth hold is at least 3 and the smoothed knee angle exceeds 100,
  \<open>process_frame\<close> adds exactly one to \<open>correct_counter\<close>, empties the sequence,
  resets \<open>min_knee_angle\<close> to 180 and \<open>depth_hold\<close> to 0. The rep resolution
  sets its feedback to "Correct Squat", but the feedback at the end of the frame
  is not "Correct Squat": the form feedback is written over it, and on such a
  frame (stage S2, knee angle above 80) it is one of "Bend forward", "Bend
  backwards", "Lower your hips", "Knees over toes". No other frame of that
  replay changes \<open>correct_counter\<close>: a frame that changes it ends at stage S2 and
  finds a depth hold of at least 3; and when a new analyzer is fed frames that
  end at S1, then frames that end at S2, then three or more frames that end at
  S3, the counter is 0 after every one of them and 1 after the rising frame,
  which leaves the sequence empty.
\<close>

theorem correct_squat_on_rise:
  "(reachable s \<and> last_three (sequence s) = [S1, S2, S3] \<and> depth_hold s \<ge> 3 \<and>
    fully_visible lms \<and> smoothed_knee_angle s lms > 100 \<longrightarrow>
      correct_counter (process_frame s (Some lms)) = correct_counter s + 1 \<and>
      incorrect_counter (process_frame s (Some lms)) = incorrect_counter s \<and>
      sequence (process_frame s (Some lms)) = [] \<and>
      min_knee_angle (process_frame s (Some lms)) = 180 \<and>
      depth_hold (process_frame s (Some lms)) = 0 \<and>
      fst (resolve_rep_mobile (smoothed_knee_angle s lms)
             (snd (snd (track_frame s (get_landmark lms LEFT_SHOULDER)
                (get_landmark lms LEFT_HIP) (get_landmark lms LEFT_KNEE)
                (get_landmark lms LEFT_ANKLE))))) = Some ''Correct Squat'' \<and>
      feedback (process_frame s (Some lms)) \<in>
        {Some ''Bend forward'', Some ''Bend backwards'', Some ''Lower your hips'',
         Some ''Knees over toes''} \<and>
      feedback (process_frame s (Some lms)) \<noteq> Some ''Correct Squat'') \<and>
   (reachable t \<and> correct_counter (process_frame t pose) \<noteq> correct_counter t \<longrightarrow>
      stage (process_frame t pose) = Some S2 \<and> depth_hold t \<ge> 3) \<and>
   (xs \<noteq> [] \<and> hold_stage S1 squat_mobile_init xs \<and>
    ys \<noteq> [] \<and> hold_stage S2 (replay squat_mobile_init xs) ys \<and>
    length zs \<ge> 3 \<and> hold_stage S3 (replay squat_mobile_init (xs @ ys)) zs \<and>
    fully_visible r \<and> smoothed_knee_angle (replay squat_mobile_init (xs @ ys @ zs)) r > 100 \<longrightarrow>
      correct_counter (replay squat_mobile_init (take n (xs @ ys @ zs))) = 0 \<and>
      correct_counter (replay squat_mobile_init (xs @ ys @ zs @ [r])) = 1 \<and>
      sequence (replay squat_mobile_init (xs @ ys @ zs @ [r])) = [])"
proof (intro conjI impI)
  assume h: "reachable s \<and> last_three (sequence s) = [S1, S2, S3] \<and> depth_hold s \<ge> 3 \<and>
    fully_visible lms \<and> smoothed_knee_angle s lms > 100"
  then have m: "reachable s" "last_three (sequence s) = [S1, S2, S3]" "depth_hold s \<ge> 3"
    "fully_visible lms" "smoothed_knee_angle s lms > 100"
    by simp_all
  note rc = rise_counts [OF m]
  show "correct_counter (process_frame s (Some lms)) = correct_counter s + 1"
    and "incorrect_counter (process_frame s (Some lms)) = incorrect_counter s"
    and "sequence (process_frame s (Some lms)) = []"
    and "min_knee_angle (process_frame s (Some lms)) = 180"
    and "depth_hold (process_frame s (Some lms)) = 0"
    and "fst (resolve_rep_mobile (smoothed_knee_angle s lms)
             (snd (snd (track_frame s (get_landmark lms LEFT_SHOULDER)
                (get_landmark lms LEFT_HIP) (get_landmark lms LEFT_KNEE)
                (get_landmark lms LEFT_ANKLE))))) = Some ''Correct Squat''"
    and "feedback (process_frame s (Some lms)) \<in>
        {Some ''Bend forward'', Some ''Bend backwards'', Some ''Lower your hips'',
         Some ''Knees over toes''}"
    and "feedback (process_frame s (Some lms)) \<noteq> Some ''Correct Squat''"
    using rc by blast+
next
  assume "reachable t \<and> correct_counter (process_frame t pose) \<noteq> correct_counter t"
  then have c: "stage (process_frame t pose) = Some S2 \<and> depth_hold t \<ge> 3"
    using counting_frame [of t pose] by blast
  show "stage (process_frame t pose) = Some S2" and "depth_hold t \<ge> 3"
    using c by simp_all
next
  assume h: "xs \<noteq> [] \<and> hold_stage S1 squat_mobile_init xs \<and>
    ys \<noteq> [] \<and> hold_stage S2 (replay squat_mobile_init xs) ys \<and>
    length zs \<ge> 3 \<and> hold_stage S3 (replay squat_mobile_init (xs @ ys)) zs \<and>
    fully_visible r \<and> smoothed_knee_angle (replay squat_mobile_init (xs @ ys @ zs)) r > 100"
  let ?d = "replay squat_mobile_init (xs @ ys @ zs)"
  have d: "correct_counter ?d = 0" "last_three (sequence ?d) = [S1, S2, S3]" "depth_hold ?d \<ge> 3"
    using h descent [of xs ys zs] by simp_all
  have re: "reachable ?d"
    by (rule reachable_replay) (rule reachable_init)
  have vis: "fully_visible r" and k: "smoothed_knee_angle ?d r > 100"
    using h by simp_all
  note rc = rise_counts [OF re d(2) d(3) vis k]
  have last: "replay squat_mobile_init (xs @ ys @ zs @ [r]) = process_frame ?d (Some r)"
    using replay_append [of squat_mobile_init "xs @ ys @ zs" "[r]"] by (simp add: replay_def)
  show "correct_counter (replay squat_mobile_init (take n (xs @ ys @ zs))) = 0"
    using d(1) by (rule replay_prefix_uncounted)
  show "correct_counter (replay squat_mobile_init (xs @ ys @ zs @ [r])) = 1"
    using rc d(1) by (simp add: last)
  show "sequence (replay squat_mobile_init (xs @ ys @ zs @ [r])) = []"
    using rc by (simp add: last)
qed


theorem correct_squat_on_rise_witness:
  "reachable at_bottom \<and> last_three (sequence at_bottom) = [S1, S2, S3] \<and>
   depth_hold at_bottom \<ge> 3 \<and> fully_visible standing \<and>
   smoothed_knee_angle at_bottom standing > 100 \<and>
   correct_counter at_bottom = 0 \<and>
   correct_counter (process_frame at_bottom (Some standing)) = 1 \<and>
   sequence (process_frame at_bottom (Some standing)) = [] \<and>
   min_knee_angle (process_frame at_bottom (Some standing)) = 180 \<and>
   depth_hold (process_frame at_bottom (Some standing)) = 0 \<and>
   feedback (process_frame at_bottom (Some standing)) \<noteq> Some ''Correct Squat'' \<and>
   stage (process_frame at_bottom (Some standing)) = Some S2 \<and>
   stand_frames \<noteq> [] \<and> hold_stage S1 squat_mobile_init stand_frames \<and>
   lowering_frames \<noteq> [] \<and> hold_stage S2 (replay squat_mobile_init stand_frames) lowering_frames \<and>
   length bottom_frames \<ge> 3 \<and>
   hold_stage S3 (replay squat_mobile_init (stand_frames @ lowering_frames)) bottom_frames \<and>
   correct_counter (replay squat_mobile_init (take 7 squat_down)) = 0 \<and>
   correct_counter (replay squat_mobile_init (squat_down @ [standing])) = 1"
proof -
  have h: "last_three (sequence at_bottom) = [S1, S2, S3]" "depth_hold at_bottom \<ge> 3"
    "correct_counter at_bottom = 0"
    by (simp_all add: at_bottom_eq last_three_def)
  have k: "smoothed_knee_angle at_bottom standing > 100"
    by (simp add: rise_knee_angle)
  have main: "reachable at_bottom \<and> last_three (sequence at_bottom) = [S1, S2, S3] \<and>
      depth_hold at_bottom \<ge> 3 \<and> fully_visible standing \<and>
      smoothed_knee_angle at_bottom standing > 100"
    using reachable_at_bottom h visible_standing k by simp
  note rise = correct_squat_on_rise [THEN conjunct1, THEN mp, OF main]
  have changed: "reachable at_bottom \<and>
      correct_counter (process_frame at_bottom (Some standing)) \<noteq> correct_counter at_bottom"
    using reachable_at_bottom rise by simp
  note counting = correct_squat_on_rise [THEN conjunct2, THEN conjunct1, THEN mp, OF changed]
  have parts: "stand_frames \<noteq> []" "lowering_frames \<noteq> []" "length bottom_frames \<ge> 3"
    by (simp_all add: stand_frames_def lowering_frames_def bottom_frames_def)
  have down: "replay squat_mobile_init (stand_frames @ lowering_frames @ bottom_frames) = at_bottom"
    by (simp add: at_bottom_def squat_down_parts)
  have replayed: "stand_frames \<noteq> [] \<and> hold_stage S1 squat_mobile_init stand_frames \<and>
      lowering_frames \<noteq> [] \<and>
      hold_stage S2 (replay squat_mobile_init stand_frames) lowering_frames \<and>
      length bottom_frames \<ge> 3 \<and>
      hold_stage S3 (replay squat_mobile_init (stand_frames @ lowering_frames)) bottom_frames \<and>
      fully_visible standing \<and>
      smoothed_knee_angle
        (replay squat_mobile_init (stand_frames @ lowering_frames @ bottom_frames)) standing > 100"
    using parts hold_stand hold_lowering hold_bottom visible_standing k by (simp add: down)
  note whole = correct_squat_on_rise [THEN conjunct2, THEN conjunct2, THEN mp, OF replayed,
      of 7]
  show ?thesis
    using main h rise counting parts hold_stand hold_lowering hold_bottom whole
    by (simp add: squat_down_parts)
qed

text \<open>
  The claim as stated fails at the rise that ends the replay: the rep is
  counted, the feedback of the frame is "Bend backwards".
\<close>

theorem correct_squat_feedback_counterexample:
  "last_three (sequence at_bottom) = [S1, S2, S3] \<and> depth_hold at_bottom \<ge> 3 \<and>
   fully_visible standing \<and> smoothed_knee_angle at_bottom standing > 100 \<and>
   correct_counter (process_frame at_bottom (Some standing)) = correct_counter at_bottom + 1 \<and>
   feedback (process_frame at_bottom (Some standing)) = Some ''Bend backwards'' \<and>
   feedback (process_frame at_bottom (Some standing)) \<noteq> Some ''Correct Squat''"
  unfolding rise_eq rise_knee_angle
  by (simp add: at_bottom_eq last_three_def visible_standing)

end
